theory Spec2Isabelle
  imports Complex_Main "HOL-Library.Word"
begin

unbundle bit_operations_syntax

section \<open>Conventions\<close>

text \<open>
  JavaScript strings are modelled as HOL strings, one \<^typ>\<open>char\<close> per UTF-16 code unit,
  so the model covers the code units below 256 and \<open>length\<close> is the \<open>.length\<close> of the
  source; case conversion and the classes of the regular expressions are those of ASCII.
  JavaScript numbers are modelled as \<^typ>\<open>int\<close> where the source uses them as
  integers (lengths, identifiers, timestamps) and as doubles where it takes square
  roots and quotients (\<open>cosineSimilarity\<close>): reals rounded to the nearest double after
  every operation, and \<open>NaN\<close>. A name of the source that starts with an underscore is written without
  it (\<open>_shouldRespond\<close> is \<open>shouldRespond\<close>), and the fields of a record carry a
  prefix where the plain name is taken. The lines of the log are kept without their
  pictographs and without the error object that follows the message.
\<close>

section \<open>Text utilities (utils.ts)\<close>

subsection \<open>Number rendering\<close>

definition hexDigit :: "nat \<Rightarrow> char" where
  "hexDigit d = ''0123456789abcdef'' ! d"

text \<open>\<open>n.toString(16)\<close> for a non-negative integer.\<close>

function toString16 :: "nat \<Rightarrow> string" where
  "toString16 n =
     (if n < 16 then [hexDigit n] else toString16 (n div 16) @ [hexDigit (n mod 16)])"
  by pat_completeness auto
termination
  by (relation "measure id") auto

declare toString16.simps [simp del]

text \<open>\<open>s.padStart(n, c)\<close> with a one-character filler.\<close>

definition padStart :: "nat \<Rightarrow> char \<Rightarrow> string \<Rightarrow> string" where
  "padStart n c s = replicate (n - length s) c @ s"

text \<open>\<open>s.slice(a, b)\<close> for \<open>0 \<le> a \<le> b\<close>.\<close>

definition slice :: "nat \<Rightarrow> nat \<Rightarrow> string \<Rightarrow> string" where
  "slice a b s = take (b - a) (drop a s)"

subsection \<open>stringToUuid\<close>

text \<open>
  The loop of \<open>stringToUuid\<close>: \<open>hash = ((hash << 5) - hash) + char; hash = hash & hash\<close>.
  \<open><<\<close> and \<open>&\<close> convert to a signed 32-bit integer, so \<open>hash\<close> is a 32-bit word and
  the additions wrap.
\<close>

fun hashLoop :: "32 word \<Rightarrow> string \<Rightarrow> 32 word" where
  "hashLoop hash [] = hash"
| "hashLoop hash (c # cs) = hashLoop ((push_bit 5 hash - hash) + of_char c) cs"

text \<open>\<open>Math.abs(hash)\<close> is taken on the number, so the minimum gives \<open>2 ^ 31\<close>.\<close>

definition hashHex :: "string \<Rightarrow> string" where
  "hashHex str = padStart 32 (CHR ''0'') (toString16 (nat \<bar>sint (hashLoop 0 str)\<bar>))"

definition stringToUuid :: "string \<Rightarrow> string" where
  "stringToUuid str =
     (let h = hashHex str in
      slice 0 8 h @ ''-'' @ slice 8 12 h @ ''-'' @ slice 12 16 h @ ''-'' @
      slice 16 20 h @ ''-'' @ slice 20 32 h)"

text \<open>The canonical grouped form: five groups of 8, 4, 4, 4 and 12 lowercase hex digits.\<close>

definition isHexLower :: "char \<Rightarrow> bool" where
  "isHexLower c = (c \<in> set ''0123456789abcdef'')"

definition isUuidFormat :: "string \<Rightarrow> bool" where
  "isUuidFormat s =
     (\<exists>g1 g2 g3 g4 g5.
        s = g1 @ ''-'' @ g2 @ ''-'' @ g3 @ ''-'' @ g4 @ ''-'' @ g5 \<and>
        length g1 = 8 \<and> length g2 = 4 \<and> length g3 = 4 \<and> length g4 = 4 \<and> length g5 = 12 \<and>
        list_all isHexLower (g1 @ g2 @ g3 @ g4 @ g5))"

subsection \<open>String helpers\<close>

text \<open>\<open>s.split(sep)\<close> with a one-character separator: always at least one piece.\<close>

fun splitOn :: "char \<Rightarrow> string \<Rightarrow> string list" where
  "splitOn sep [] = [[]]"
| "splitOn sep (c # cs) =
     (if c = sep then [] # splitOn sep cs
      else (case splitOn sep cs of l # ls \<Rightarrow> (c # l) # ls | [] \<Rightarrow> [[c]]))"

text \<open>\<open>xs.join(sep)\<close> on strings.\<close>

fun joinWith :: "string \<Rightarrow> string list \<Rightarrow> string" where
  "joinWith sep [] = []"
| "joinWith sep [l] = l"
| "joinWith sep (l # ls) = l @ sep @ joinWith sep ls"

text \<open>\<open>s.includes(p)\<close>.\<close>

fun includesStr :: "string \<Rightarrow> string \<Rightarrow> bool" where
  "includesStr [] p = (p = [])"
| "includesStr (c # cs) p = (take (length p) (c # cs) = p \<or> includesStr cs p)"

text \<open>
  The white space of \<open>trim()\<close> and of \<open>\s\<close>, among the code units below 256: tab, line
  feed, vertical tab, form feed, carriage return, space and the no-break space.
\<close>

definition isSpace :: "char \<Rightarrow> bool" where
  "isSpace c = (c \<in> set [CHR 0x09, CHR 0x0A, CHR 0x0B, CHR 0x0C, CHR 0x0D, CHR 0x20, CHR 0xA0])"

definition trim :: "string \<Rightarrow> string" where
  "trim s = rev (dropWhile isSpace (rev (dropWhile isSpace s)))"


definition isLowerAZ :: "char \<Rightarrow> bool" where
  "isLowerAZ c = (97 \<le> (of_char c :: nat) \<and> (of_char c :: nat) \<le> 122)"

definition isDigit :: "char \<Rightarrow> bool" where
  "isDigit c = (48 \<le> (of_char c :: nat) \<and> (of_char c :: nat) \<le> 57)"

definition toUpperCase :: "string \<Rightarrow> string" where
  "toUpperCase s =
     map (\<lambda>c. if isLowerAZ c then ''ABCDEFGHIJKLMNOPQRSTUVWXYZ'' ! ((of_char c :: nat) - 97) else c) s"


text \<open>\<open>n.toString()\<close> for an integer.\<close>

function natToString :: "nat \<Rightarrow> string" where
  "natToString n =
     (if n < 10 then [hexDigit n] else natToString (n div 10) @ [hexDigit (n mod 10)])"
  by pat_completeness auto
termination
  by (relation "measure id") auto

declare natToString.simps [simp del]

definition numToString :: "int \<Rightarrow> string" where
  "numToString i = (if i < 0 then ''-'' @ natToString (nat (- i)) else natToString (nat i))"

text \<open>
  A key that is an array index: the decimal numeral of a natural number, without a
  leading zero.
\<close>

definition parseIndex :: "string \<Rightarrow> nat option" where
  "parseIndex key =
     (if key \<noteq> [] \<and> list_all isDigit key \<and> (key = ''0'' \<or> take 1 key \<noteq> ''0'')
      then Some (foldl (\<lambda>a c. 10 * a + ((of_char c :: nat) - 48)) 0 key) else None)"

subsection \<open>splitMessage\<close>

text \<open>
  The loop body of \<open>splitMessage\<close>, on the pair \<open>(chunks, currentChunk)\<close>. An empty
  string is falsy: \<open>currentChunk ? "\n" : ""\<close> and \<open>if (currentChunk)\<close>.
\<close>

fun splitLoop :: "int \<Rightarrow> string list \<Rightarrow> string \<Rightarrow> string list \<Rightarrow> string list \<times> string" where
  "splitLoop maxLength chunks currentChunk [] = (chunks, currentChunk)"
| "splitLoop maxLength chunks currentChunk (line # lines) =
     (if int (length currentChunk) + int (length line) + 1 \<le> maxLength
      then splitLoop maxLength chunks
             (currentChunk @ (if currentChunk \<noteq> [] then ''\<newline>'' else []) @ line) lines
      else splitLoop maxLength
             (if currentChunk \<noteq> [] then chunks @ [currentChunk] else chunks) line lines)"

text \<open>The last statement of \<open>splitMessage\<close>: \<open>if (currentChunk) chunks.push(currentChunk)\<close>.\<close>

definition pushLast :: "string list \<times> string \<Rightarrow> string list" where
  "pushLast p =
     (case p of (chunks, currentChunk) \<Rightarrow>
        if currentChunk \<noteq> [] then chunks @ [currentChunk] else chunks)"

definition splitMessage :: "string \<Rightarrow> int \<Rightarrow> string list" where
  "splitMessage text maxLength =
     pushLast (splitLoop maxLength [] [] (splitOn (CHR 0x0A) text))"

text \<open>
  The lines that \<open>splitMessage\<close> keeps, with \<open>currentChunk\<close> as the loop has it. An
  empty line is lost when it arrives while the current chunk is empty, or when it does
  not fit (it then starts a chunk, which stays empty); every other line is kept.
\<close>

fun keptLines :: "int \<Rightarrow> string \<Rightarrow> string list \<Rightarrow> string list" where
  "keptLines maxLength currentChunk [] = []"
| "keptLines maxLength currentChunk (line # lines) =
     (if int (length currentChunk) + int (length line) + 1 \<le> maxLength
      then (if line = [] \<and> currentChunk = []
            then keptLines maxLength [] lines
            else line # keptLines maxLength
                          (currentChunk @ (if currentChunk \<noteq> [] then ''\<newline>'' else []) @ line)
                          lines)
      else (if line = [] then keptLines maxLength [] lines
            else line # keptLines maxLength line lines))"

text \<open>Whether some empty line is lost.\<close>

fun losesLine :: "int \<Rightarrow> string \<Rightarrow> string list \<Rightarrow> bool" where
  "losesLine maxLength currentChunk [] = False"
| "losesLine maxLength currentChunk (line # lines) =
     (if int (length currentChunk) + int (length line) + 1 \<le> maxLength
      then (line = [] \<and> currentChunk = []) \<or>
           losesLine maxLength
             (currentChunk @ (if currentChunk \<noteq> [] then ''\<newline>'' else []) @ line) lines
      else line = [] \<or> losesLine maxLength line lines)"


subsection \<open>cosineSimilarity\<close>






text \<open>
  The numbers of \<open>cosineSimilarity\<close> are doubles. \<open>roundDouble x\<close> is the double nearest
  to a real \<open>x\<close> that is not negative, ties to even: with \<open>e\<close> the binary exponent of
  \<open>x\<close>, the multiple of \<open>2 ^ (e - 52)\<close> nearest to it. Overflow and subnormal numbers
  are left out: the function computes with counts of words, their products and sums,
  square roots and one quotient, all far from both ends of the range. \<open>Math.sqrt\<close> is
  taken to round correctly.
\<close>

definition rne :: "real \<Rightarrow> int" where
  "rne y =
     (let f = \<lfloor>y\<rfloor> in
      if y - of_int f < 1 / 2 then f
      else if 1 / 2 < y - of_int f then f + 1
      else if even f then f else f + 1)"

definition roundDouble :: "real \<Rightarrow> real" where
  "roundDouble x =
     (if x \<le> 0 then 0
      else of_int (rne (x * 2 powr (52 - of_int \<lfloor>log 2 x\<rfloor>))) * 2 powr (of_int \<lfloor>log 2 x\<rfloor> - 52))"

text \<open>
  A number, or a value that arithmetic turns into \<open>NaN\<close>: \<open>NaN\<close> itself, a function,
  an object, a string that is not a numeral.
\<close>

datatype jsnum = Num real | NaN

fun numAdd :: "jsnum \<Rightarrow> jsnum \<Rightarrow> jsnum" where
  "numAdd (Num x) (Num y) = Num (roundDouble (x + y))"
| "numAdd _ _ = NaN"

fun numMul :: "jsnum \<Rightarrow> jsnum \<Rightarrow> jsnum" where
  "numMul (Num x) (Num y) = Num (roundDouble (x * y))"
| "numMul _ _ = NaN"

text \<open>
  The quotient. A division by 0 would give \<open>Infinity\<close> or \<open>NaN\<close>; it does not occur,
  as the divisor is a product of magnitudes that were found not to be 0.
\<close>

fun numDiv :: "jsnum \<Rightarrow> jsnum \<Rightarrow> jsnum" where
  "numDiv (Num x) (Num y) = (if y = 0 then NaN else Num (roundDouble (x / y)))"
| "numDiv _ _ = NaN"

text \<open>\<open>Math.max\<close>: \<open>NaN\<close> when an argument is.\<close>

fun numMax :: "jsnum \<Rightarrow> jsnum \<Rightarrow> jsnum" where
  "numMax (Num x) (Num y) = Num (max x y)"
| "numMax _ _ = NaN"

fun numSqrt :: "jsnum \<Rightarrow> jsnum" where
  "numSqrt (Num x) = Num (roundDouble (sqrt x))"
| "numSqrt NaN = NaN"


text \<open>A number that is not negative.\<close>

fun nonNegative :: "jsnum \<Rightarrow> bool" where
  "nonNegative (Num x) = (0 \<le> x)"
| "nonNegative NaN = False"

text \<open>
  The names that every object inherits from \<open>Object.prototype\<close>. The frequency objects
  are made by \<open>{}\<close>, so \<open>freq[word]\<close> finds these names when \<open>word\<close> is not an own
  property.
\<close>

definition objectPrototypeNames :: "string list" where
  "objectPrototypeNames =
     [''constructor'', ''__defineGetter__'', ''__defineSetter__'', ''hasOwnProperty'',
      ''__lookupGetter__'', ''__lookupSetter__'', ''isPrototypeOf'', ''propertyIsEnumerable'',
      ''toString'', ''valueOf'', ''__proto__'', ''toLocaleString'']"












section \<open>Values, effects and collaborators\<close>

text \<open>
  The values held by \<open>state\<close> and \<open>defaultValues\<close>. An object is the list of its
  own properties, in order, with distinct keys. A function is kept as the text that
  \<open>String\<close> gives for it. What a value inherits from its prototype is not part of
  the value: the runtime answers for it (\<open>inheritedProp\<close> below).
\<close>

datatype jsval =
    Undefined
  | Null
  | JBool bool
  | JNum int
  | JStr string
  | JArr "jsval list"
  | JObj "(string \<times> jsval) list"
  | JFun string

text \<open>
  Exceptions: \<open>TypeError\<close> is raised by the code itself (a property read on \<open>null\<close> or
  \<open>undefined\<close>), \<open>Thrown\<close> by a collaborator.
\<close>

datatype exn = TypeError string | Thrown string

datatype level = LInfo | LWarn | LDebug | LError

record tgChat =
  chat_id :: int
  chat_type :: string

record photoSize =
  photo_file_id :: string

record tgDocument =
  doc_file_id :: string
  doc_mime_type :: "string option"

text \<open>
  A message of the transport. An optional field is \<open>None\<close> when the key is absent
  (\<open>"text" in message\<close> is false); \<open>reply_to_message\<close> holds the \<open>message_id\<close> of the
  message replied to.
\<close>

record message =
  message_id :: int
  date :: int
  chat :: tgChat
  msg_text :: "string option"
  caption :: "string option"
  photo :: "photoSize list option"
  document :: "tgDocument option"
  reply_to_message :: "int option"

record user =
  from_id :: int
  is_bot :: bool
  username :: "string option"
  first_name :: string

text \<open>The transport context \<open>ctx\<close>; \<open>ctx.chat\<close> is the chat of \<open>ctx.message\<close>.\<close>

record ctx =
  ctx_message :: "message option"
  ctx_from :: "user option"

record content =
  content_text :: "string option"
  content_source :: "string option"
  content_inReplyTo :: "string option"
  content_action :: "string option"

record memory =
  memory_id :: string
  memory_userId :: string
  memory_agentId :: string
  memory_roomId :: string
  memory_content :: "content option"
  memory_createdAt :: "int option"
  memory_embedding :: "real list"

record searchOpts =
  match_threshold :: real
  search_count :: nat
  search_roomId :: string
  search_unique :: bool

record trackedMessage =
  tracked_userId :: string
  tracked_userName :: string
  tracked_text :: string
  tracked_source :: string

record chatState =
  currentHandler :: "string option"
  lastMessageSent :: int
  messages :: "trackedMessage list"

text \<open>
  Everything the code does to the outside is an event of the trace: a line of
  \<open>elizaLogger\<close> or a call of a collaborator (the runtime, the transport, the image
  description service), with its arguments.
\<close>

datatype event =
    Logged level string
  | EnsureConnection string string string string string
  | CreateMemory memory
  | ComposeState memory
  | UpdateRecentMessageState jsval
  | SearchMemoriesByEmbedding "real list" searchOpts
  | GetFileLink string
  | DescribeImage string
  | SendMessage int string "int option"
  | ProcessActions memory "memory list" jsval
  | Evaluate memory jsval bool

text \<open>
  The mutable state: the trace so far (oldest event first) and the \<open>interestChats\<close>
  object of the client.
\<close>

record world =
  events :: "event list"
  interestChats :: "string \<rightharpoonup> chatState"

text \<open>
  The collaborators. Each answers a call from the trace so far and the arguments of the
  call: it returns or throws. \<open>now\<close> is \<open>Date.now()\<close>; \<open>randomDraw h k\<close> stands for the
  \<open>k\<close>-th draw of \<open>Math.random()\<close> after the trace \<open>h\<close>, already scaled to a natural
  number (it is reduced modulo the length of the array it indexes);
  \<open>hasImageService\<close> tells whether \<open>getService\<close> returns a service.

  The last two fields are the prototypes of the JavaScript runtime.
  \<open>inheritedProp v key\<close> is what \<open>v[key]\<close> gives when \<open>key\<close> is not an own property
  of \<open>v\<close> (nor an index or the \<open>length\<close> of an array or string) but is found on its
  prototype chain; \<open>None\<close> when it is not found. \<open>inheritedFormatter own name\<close> is
  \<open>Some\<close> when \<open>name in formatters\<close> holds though \<open>name\<close> is no own property of
  \<open>formatters\<close>, and then tells what the call \<open>formatters[name](value)\<close> gives, as the
  string the replacement makes of it, or throws; \<open>own\<close> tells the own property names
  of \<open>formatters\<close>, the object on which the member is called.
\<close>

record env =
  now :: "event list \<Rightarrow> int"
  randomDraw :: "event list \<Rightarrow> nat \<Rightarrow> nat"
  getEmbeddingZeroVector :: "real list"
  ensureConnectionR :: "event list \<Rightarrow> exn option"
  createMemoryR :: "event list \<Rightarrow> memory \<Rightarrow> exn option"
  composeStateR :: "event list \<Rightarrow> memory \<Rightarrow> exn + jsval"
  updateRecentMessageStateR :: "event list \<Rightarrow> jsval \<Rightarrow> exn + jsval"
  searchMemoriesByEmbeddingR :: "event list \<Rightarrow> real list \<Rightarrow> searchOpts \<Rightarrow> exn + memory list"
  getFileLinkR :: "event list \<Rightarrow> string \<Rightarrow> exn + string"
  hasImageService :: bool
  describeImageR :: "event list \<Rightarrow> string \<Rightarrow> exn + string \<times> string"
  sendMessageR :: "event list \<Rightarrow> int \<Rightarrow> string \<Rightarrow> int option \<Rightarrow> exn + message"
  processActionsR :: "event list \<Rightarrow> exn option"
  evaluateR :: "event list \<Rightarrow> exn option"
  inheritedProp :: "jsval \<Rightarrow> string \<Rightarrow> jsval option"
  inheritedFormatter :: "(string \<Rightarrow> bool) \<Rightarrow> string \<Rightarrow> (jsval \<Rightarrow> exn + string) option"

text \<open>
  A computation takes the world and gives a value or an exception, and the new world.
\<close>

type_synonym 'a io = "world \<Rightarrow> (exn + 'a) \<times> world"

definition ret :: "'a \<Rightarrow> 'a io" where
  "ret x = (\<lambda>w. (Inr x, w))"

definition throw :: "exn \<Rightarrow> 'a io" where
  "throw e = (\<lambda>w. (Inl e, w))"

definition bind :: "'a io \<Rightarrow> ('a \<Rightarrow> 'b io) \<Rightarrow> 'b io" where
  "bind m f = (\<lambda>w. case m w of (Inl e, w') \<Rightarrow> (Inl e, w') | (Inr x, w') \<Rightarrow> f x w')"

text \<open>\<open>try { m } catch (error) { h error }\<close>.\<close>

definition tryCatch :: "'a io \<Rightarrow> (exn \<Rightarrow> 'a io) \<Rightarrow> 'a io" where
  "tryCatch m h = (\<lambda>w. case m w of (Inl e, w') \<Rightarrow> h e w' | (Inr x, w') \<Rightarrow> (Inr x, w'))"

definition emit :: "event \<Rightarrow> unit io" where
  "emit ev = (\<lambda>w. (Inr (), w\<lparr>events := events w @ [ev]\<rparr>))"

definition logger :: "level \<Rightarrow> string \<Rightarrow> unit io" where
  "logger l msg = emit (Logged l msg)"

text \<open>
  A call of a collaborator: the answer is read from the trace before the call, the call
  is recorded, and the answer is returned or thrown.
\<close>

definition callExt :: "event \<Rightarrow> (event list \<Rightarrow> exn + 'a) \<Rightarrow> 'a io" where
  "callExt ev answer =
     (\<lambda>w. case answer (events w) of
             Inl e \<Rightarrow> (Inl e, w\<lparr>events := events w @ [ev]\<rparr>)
           | Inr x \<Rightarrow> (Inr x, w\<lparr>events := events w @ [ev]\<rparr>))"

definition orThrow :: "exn option \<Rightarrow> exn + unit" where
  "orThrow r = (case r of Some e \<Rightarrow> Inl e | None \<Rightarrow> Inr ())"

definition getNow :: "env \<Rightarrow> int io" where
  "getNow E = (\<lambda>w. (Inr (now E (events w)), w))"

definition createMemory :: "env \<Rightarrow> memory \<Rightarrow> unit io" where
  "createMemory E memory = callExt (CreateMemory memory) (\<lambda>h. orThrow (createMemoryR E h memory))"

definition composeState :: "env \<Rightarrow> memory \<Rightarrow> jsval io" where
  "composeState E memory = callExt (ComposeState memory) (\<lambda>h. composeStateR E h memory)"

definition updateRecentMessageState :: "env \<Rightarrow> jsval \<Rightarrow> jsval io" where
  "updateRecentMessageState E state =
     callExt (UpdateRecentMessageState state) (\<lambda>h. updateRecentMessageStateR E h state)"

definition searchMemoriesByEmbedding :: "env \<Rightarrow> real list \<Rightarrow> searchOpts \<Rightarrow> memory list io" where
  "searchMemoriesByEmbedding E embedding opts =
     callExt (SearchMemoriesByEmbedding embedding opts)
       (\<lambda>h. searchMemoriesByEmbeddingR E h embedding opts)"

section \<open>Template compositor (utils.ts)\<close>

subsection \<open>Stringification of values\<close>

text \<open>
  \<open>String(value)\<close>. Inside \<open>Array.prototype.join\<close> the elements \<open>null\<close> and
  \<open>undefined\<close> give the empty string, and a nested array is joined with \<open>","\<close>.
\<close>

fun jsToString :: "jsval \<Rightarrow> string" where
  "jsToString Undefined = ''undefined''"
| "jsToString Null = ''null''"
| "jsToString (JBool b) = (if b then ''true'' else ''false'')"
| "jsToString (JNum n) = numToString n"
| "jsToString (JStr s) = s"
| "jsToString (JArr xs) =
     joinWith '','' (map (\<lambda>v. if v = Undefined \<or> v = Null then [] else jsToString v) xs)"
| "jsToString (JObj kvs) = ''[object Object]''"
| "jsToString (JFun src) = src"

text \<open>\<open>value.join(sep)\<close> on an array.\<close>

definition arrayJoin :: "string \<Rightarrow> jsval list \<Rightarrow> string" where
  "arrayJoin sep xs =
     joinWith sep (map (\<lambda>v. if v = Undefined \<or> v = Null then [] else jsToString v) xs)"

text \<open>The string literals of \<open>JSON.stringify\<close>.\<close>

definition jsonEscape :: "char \<Rightarrow> string" where
  "jsonEscape c =
     (if c = CHR 0x22 then [CHR 0x5C, CHR 0x22]
      else if c = CHR 0x5C then [CHR 0x5C, CHR 0x5C]
      else if c = CHR 0x08 then [CHR 0x5C, CHR ''b'']
      else if c = CHR 0x09 then [CHR 0x5C, CHR ''t'']
      else if c = CHR 0x0A then [CHR 0x5C, CHR ''n'']
      else if c = CHR 0x0C then [CHR 0x5C, CHR ''f'']
      else if c = CHR 0x0D then [CHR 0x5C, CHR ''r'']
      else if (of_char c :: nat) < 32
        then [CHR 0x5C, CHR ''u''] @ padStart 4 (CHR ''0'') (toString16 (of_char c))
      else [c])"

definition jsonQuote :: "string \<Rightarrow> string" where
  "jsonQuote s = [CHR 0x22] @ concat (map jsonEscape s) @ [CHR 0x22]"

text \<open>
  \<open>JSON.stringify(value)\<close> without indentation: a property whose value is
  \<open>undefined\<close> or a function is left out of an object, and such an element of an array
  is written \<open>null\<close>.
\<close>

fun isOmitted :: "jsval \<Rightarrow> bool" where
  "isOmitted Undefined = True"
| "isOmitted (JFun src) = True"
| "isOmitted _ = False"

fun jsonStringify :: "jsval \<Rightarrow> string" where
  "jsonStringify Undefined = ''null''"
| "jsonStringify Null = ''null''"
| "jsonStringify (JBool b) = (if b then ''true'' else ''false'')"
| "jsonStringify (JNum n) = numToString n"
| "jsonStringify (JStr s) = jsonQuote s"
| "jsonStringify (JArr xs) = ''['' @ joinWith '','' (map jsonStringify xs) @ '']''"
| "jsonStringify (JObj kvs) =
     ''{'' @ joinWith '',''
       (map (\<lambda>(k, v). jsonQuote k @ '':'' @ jsonStringify v)
          (filter (\<lambda>(k, v). \<not> isOmitted v) kvs)) @ ''}''"
| "jsonStringify (JFun src) = ''null''"

subsection \<open>composeContext\<close>

text \<open>
  \<open>acc[key]\<close>: reading a property of \<open>null\<close> or \<open>undefined\<close> throws; an object
  gives its own property; an array and a string give an element or their \<open>length\<close>;
  otherwise the value is looked for on the prototype chain, and is \<open>undefined\<close> when
  it is not there.
\<close>

definition inherited :: "env \<Rightarrow> jsval \<Rightarrow> string \<Rightarrow> exn + jsval" where
  "inherited E acc key =
     (case inheritedProp E acc key of Some v \<Rightarrow> Inr v | None \<Rightarrow> Inr Undefined)"

definition getProp :: "env \<Rightarrow> jsval \<Rightarrow> string \<Rightarrow> exn + jsval" where
  "getProp E acc key =
     (case acc of
        Null \<Rightarrow>
          Inl (TypeError (''Cannot read properties of null (reading '' @ [CHR 0x27] @ key @
                          [CHR 0x27] @ '')''))
      | Undefined \<Rightarrow>
          Inl (TypeError (''Cannot read properties of undefined (reading '' @ [CHR 0x27] @ key @
                          [CHR 0x27] @ '')''))
      | JObj kvs \<Rightarrow> (case map_of kvs key of Some v \<Rightarrow> Inr v | None \<Rightarrow> inherited E acc key)
      | JArr xs \<Rightarrow>
          (if key = ''length'' then Inr (JNum (int (length xs)))
           else case parseIndex key of
                  Some i \<Rightarrow> if i < length xs then Inr (xs ! i) else inherited E acc key
                | None \<Rightarrow> inherited E acc key)
      | JStr s \<Rightarrow>
          (if key = ''length'' then Inr (JNum (int (length s)))
           else case parseIndex key of
                  Some i \<Rightarrow> if i < length s then Inr (JStr [s ! i]) else inherited E acc key
                | None \<Rightarrow> inherited E acc key)
      | _ \<Rightarrow> inherited E acc key)"

text \<open>
  \<open>path.reduce((acc, key) => acc === undefined ? undefined : acc[key], obj)\<close>.
\<close>

fun getNestedValue :: "env \<Rightarrow> jsval \<Rightarrow> string list \<Rightarrow> exn + jsval" where
  "getNestedValue E acc [] = Inr acc"
| "getNestedValue E acc (key # path) =
     (if acc = Undefined then getNestedValue E Undefined path
      else case getProp E acc key of
             Inl e \<Rightarrow> Inl e
           | Inr v \<Rightarrow> getNestedValue E v path)"

text \<open>
  The own properties of \<open>formatters\<close>: functions that return a string or throw.
\<close>

type_synonym formatters = "string \<rightharpoonup> (jsval \<Rightarrow> exn + string)"

text \<open>The default of \<open>formatValue\<close>, when no formatter is applied.\<close>

definition defaultFormat :: "jsval \<Rightarrow> string" where
  "defaultFormat v =
     (case v of
        Null \<Rightarrow> []
      | Undefined \<Rightarrow> []
      | JArr xs \<Rightarrow> arrayJoin '', '' xs
      | JObj kvs \<Rightarrow> jsonStringify v
      | _ \<Rightarrow> jsToString v)"

text \<open>
  \<open>formatValue\<close>. \<open>formatterName in formatters\<close> holds for an own property and for
  an inherited one; the own one is found first.
\<close>

definition formatValue :: "env \<Rightarrow> formatters \<Rightarrow> jsval \<Rightarrow> string option \<Rightarrow> exn + string" where
  "formatValue E fmts v formatterName =
     (case formatterName of
        Some name \<Rightarrow>
          (case fmts name of
             Some formatter \<Rightarrow> formatter v
           | None \<Rightarrow>
               (case inheritedFormatter E (\<lambda>key. fmts key \<noteq> None) name of
                  Some formatter \<Rightarrow> formatter v
                | None \<Rightarrow> Inr (defaultFormat v)))
      | None \<Rightarrow> Inr (defaultFormat v))"

text \<open>
  One match of \<open>/\{\{([^}|]+)(?:\|([^}]+))?\}\}/\<close> at the start of the string: the
  matched text, the two groups and the rest of the string. Both groups are greedy and
  what follows them cannot match inside them, so backtracking finds nothing more.
\<close>

definition matchPlaceholder :: "string \<Rightarrow> (string \<times> string \<times> string option \<times> string) option" where
  "matchPlaceholder s =
     (if take 2 s = ''{{'' then
        let variable = takeWhile (\<lambda>c. c \<noteq> CHR ''}'' \<and> c \<noteq> CHR ''|'') (drop 2 s);
            r1 = dropWhile (\<lambda>c. c \<noteq> CHR ''}'' \<and> c \<noteq> CHR ''|'') (drop 2 s)
        in if variable = [] then None
           else if take 2 r1 = ''}}''
             then Some (''{{'' @ variable @ ''}}'', variable, None, drop 2 r1)
           else if take 1 r1 = ''|'' then
             let formatter = takeWhile (\<lambda>c. c \<noteq> CHR ''}'') (drop 1 r1);
                 r2 = dropWhile (\<lambda>c. c \<noteq> CHR ''}'') (drop 1 r1)
             in if formatter \<noteq> [] \<and> take 2 r2 = ''}}''
                then Some (''{{'' @ variable @ ''|'' @ formatter @ ''}}'', variable,
                           Some formatter, drop 2 r2)
                else None
           else None
      else None)"

text \<open>
  The scan of \<open>template.replace(regex, callback)\<close>, from left to right: a match, or one
  code unit copied when there is no match at this place.
\<close>

datatype segment = Literal char | Placeholder string string "string option"

function scanTemplate :: "string \<Rightarrow> segment list" where
  "scanTemplate [] = []"
| "scanTemplate (c # cs) =
     (case matchPlaceholder (c # cs) of
        Some (match, variable, formatter, rest) \<Rightarrow>
          Placeholder match variable formatter # scanTemplate rest
      | None \<Rightarrow> Literal c # scanTemplate cs)"
  by pat_completeness auto
termination
proof (relation "measure length")
  show "wf (measure length)" by simp
next
  fix c cs x2 match y variable ya formatter rest
  assume "matchPlaceholder (c # cs) = Some x2" and "(match, y) = x2"
    and "(variable, ya) = y" and "(formatter, rest) = ya"
  then have m: "matchPlaceholder (c # cs) = Some (match, variable, formatter, rest)" by simp
  have d: "length (drop 2 (dropWhile P (drop k (c # cs)))) \<le> length cs" for P k
    using length_dropWhile_le [of P "drop k (c # cs)"] by (cases k) auto
  have "length rest \<le> length cs"
  proof (cases "take 2 (dropWhile (\<lambda>c. c \<noteq> CHR ''}'' \<and> c \<noteq> CHR ''|'') (drop 2 (c # cs))) = ''}}''")
    case True
    with m d [of "\<lambda>c. c \<noteq> CHR ''}'' \<and> c \<noteq> CHR ''|''" 2] show ?thesis
      by (auto simp: matchPlaceholder_def Let_def split: if_splits)
  next
    case False
    let ?r1 = "dropWhile (\<lambda>c. c \<noteq> CHR ''}'' \<and> c \<noteq> CHR ''|'') (drop 2 (c # cs))"
    from m False have "rest = drop 2 (dropWhile (\<lambda>c. c \<noteq> CHR ''}'') (drop 1 ?r1))"
      by (auto simp: matchPlaceholder_def Let_def split: if_splits)
    moreover have "length (dropWhile (\<lambda>c. c \<noteq> CHR ''}'') (drop 1 ?r1)) \<le> length ?r1"
      using length_dropWhile_le [of "\<lambda>c. c \<noteq> CHR ''}''" "drop 1 ?r1"] by simp
    moreover have "length ?r1 \<le> length (drop 2 (c # cs))"
      by (rule length_dropWhile_le)
    ultimately show ?thesis by simp
  qed
  then show "(rest, c # cs) \<in> measure length" by simp
next
  fix c cs
  show "(cs, c # cs) \<in> measure length" by simp
qed

declare scanTemplate.simps [simp del]

text \<open>The callback of the replacement, for one match.\<close>

definition replacePlaceholder ::
  "env \<Rightarrow> jsval \<Rightarrow> jsval \<Rightarrow> formatters \<Rightarrow> string \<Rightarrow> string \<Rightarrow> string option \<Rightarrow> string io" where
  "replacePlaceholder E state defaultValues fmts match variable formatter =
     (let path = splitOn (CHR ''.'') (trim variable) in
      case getNestedValue E state path of
        Inl e \<Rightarrow> throw e
      | Inr v1 \<Rightarrow>
          (case (if v1 = Undefined then getNestedValue E defaultValues path else Inr v1) of
             Inl e \<Rightarrow> throw e
           | Inr v \<Rightarrow>
               if v = Undefined
               then bind (logger LWarn
                            (''Variable '' @ variable @ '' not found in state or default values''))
                      (\<lambda>_. ret match)
               else (case formatValue E fmts v formatter of
                       Inl e \<Rightarrow> throw e
                     | Inr r \<Rightarrow> ret r)))"

fun composeSegments :: "env \<Rightarrow> jsval \<Rightarrow> jsval \<Rightarrow> formatters \<Rightarrow> segment list \<Rightarrow> string io" where
  "composeSegments E state defaultValues fmts [] = ret []"
| "composeSegments E state defaultValues fmts (Literal c # segs) =
     bind (composeSegments E state defaultValues fmts segs) (\<lambda>out. ret (c # out))"
| "composeSegments E state defaultValues fmts (Placeholder match variable formatter # segs) =
     bind (replacePlaceholder E state defaultValues fmts match variable formatter) (\<lambda>r.
     bind (composeSegments E state defaultValues fmts segs) (\<lambda>out. ret (r @ out)))"

text \<open>
  \<open>composeContext\<close>; the runtime \<open>E\<close> is there for the prototypes only.
\<close>

definition composeContext :: "env \<Rightarrow> jsval \<Rightarrow> string \<Rightarrow> jsval \<Rightarrow> formatters \<Rightarrow> string io" where
  "composeContext E state template defaultValues fmts =
     composeSegments E state defaultValues fmts (scanTemplate template)"


text \<open>
  The text of a placeholder \<open>{{variable}}\<close> or \<open>{{variable|formatter}}\<close>, and the
  condition under which the regular expression reads it back as such: the variable has
  no \<open>}\<close> and no \<open>|\<close>, the formatter name no \<open>}\<close>, and neither is empty.
\<close>

definition placeholderText :: "string \<Rightarrow> string option \<Rightarrow> string" where
  "placeholderText variable formatter =
     ''{{'' @ variable @ (case formatter of Some f \<Rightarrow> ''|'' @ f | None \<Rightarrow> []) @ ''}}''"

definition wellFormed :: "string \<Rightarrow> string option \<Rightarrow> bool" where
  "wellFormed variable formatter =
     (variable \<noteq> [] \<and> CHR ''}'' \<notin> set variable \<and> CHR ''|'' \<notin> set variable \<and>
      (case formatter of Some f \<Rightarrow> f \<noteq> [] \<and> CHR ''}'' \<notin> set f | None \<Rightarrow> True))"






definition emptyWorld :: world where
  "emptyWorld = \<lparr>events = [], interestChats = Map.empty\<rparr>"

section \<open>Decision prompt (utils.ts)\<close>

subsection \<open>composeRandomUser\<close>

text \<open>\<open>s.replace(pattern, replacement)\<close> with a string pattern: the first occurrence.\<close>

fun replaceFirst :: "string \<Rightarrow> string \<Rightarrow> string \<Rightarrow> string" where
  "replaceFirst pat rep [] = (if pat = [] then rep else [])"
| "replaceFirst pat rep (c # cs) =
     (if take (length pat) (c # cs) = pat then rep @ drop (length pat) (c # cs)
      else c # replaceFirst pat rep cs)"

definition adjectives :: "string list" where
  "adjectives = [''sick'', ''cool'', ''awesome'', ''amazing'', ''great'']"

definition nouns :: "string list" where
  "nouns = [''user'', ''person'', ''individual'', ''human'', ''being'']"

text \<open>The \<open>i\<close>-th element of \<open>users\<close>; it takes two draws.\<close>

definition randomUser :: "env \<Rightarrow> event list \<Rightarrow> nat \<Rightarrow> string" where
  "randomUser E h i =
     adjectives ! (randomDraw E h (2 * i) mod length adjectives) @ '' '' @
     nouns ! (randomDraw E h (2 * i + 1) mod length nouns)"

definition composeRandomUser :: "env \<Rightarrow> event list \<Rightarrow> string \<Rightarrow> nat \<Rightarrow> string" where
  "composeRandomUser E h template n =
     foldl (\<lambda>result i.
              replaceFirst (''{{user'' @ natToString (i + 1) @ ''}}'') (randomUser E h i) result)
       template [0..<n]"

definition telegramShouldRespondTemplate :: string where
  "telegramShouldRespondTemplate =
     ''# About {{agentName}}:\<newline>'' @
     ''{{bio}}\<newline>'' @
     ''\<newline>'' @
     ''# RESPONSE EXAMPLES\<newline>'' @
     ''{{user1}}: I just saw a really great movie\<newline>'' @
     ''{{user2}}: Oh? Which movie?\<newline>'' @
     ''Result: [IGNORE]\<newline>'' @
     ''\<newline>'' @
     ''{{agentName}}: Oh, this is my favorite scene\<newline>'' @
     ''{{user1}}: sick\<newline>'' @
     ''{{user2}}: wait, why is it your favorite scene\<newline>'' @
     ''Result: [RESPOND]\<newline>'' @
     ''\<newline>'' @
     ''{{user1}}: stfu bot\<newline>'' @
     ''Result: [STOP]\<newline>'' @
     ''\<newline>'' @
     ''{{recentMessages}}\<newline>'' @
     ''\<newline>'' @
     ''Thread of Tweets You Are Replying To:\<newline>'' @
     ''\<newline>'' @
     ''{{formattedConversation}}\<newline>'' @
     ''\<newline>'' @
     ''# INSTRUCTIONS: Choose the option that best describes {{agentName}}'s response to the last message. Ignore messages if they are addressed to someone else.''"

definition telegramMessageHandlerTemplate :: string where
  "telegramMessageHandlerTemplate = telegramShouldRespondTemplate"

subsection \<open>generateShouldRespond\<close>

definition shouldRespondPrompt :: "string \<Rightarrow> string" where
  "shouldRespondPrompt context =
     ''\<newline>'' @
     ''Based on the following context, determine if the bot should respond. Consider:\<newline>'' @
     ''- Is the message directed at or relevant to the bot?\<newline>'' @
     ''- Is it part of an ongoing conversation?\<newline>'' @
     ''- Does it require a response?\<newline>'' @
     ''\<newline>'' @
     ''Context:\<newline>'' @
     context @ ''\<newline>'' @
     ''\<newline>'' @
     ''Respond with exactly one word: either '' @ [CHR 0x22] @ ''RESPOND'' @ [CHR 0x22] @
     '' or '' @ [CHR 0x22] @ ''IGNORE'' @ [CHR 0x22] @ ''.\<newline>''"

text \<open>
  \<open>response[0]?.content?.text?.trim().toUpperCase() || "IGNORE"\<close>: a missing link of
  the chain and the empty string both give \<open>"IGNORE"\<close>.
\<close>

definition decisionOf :: "memory list \<Rightarrow> string" where
  "decisionOf response =
     (case response of
        [] \<Rightarrow> ''IGNORE''
      | r # _ \<Rightarrow>
          (case memory_content r of
             None \<Rightarrow> ''IGNORE''
           | Some c \<Rightarrow>
               (case content_text c of
                  None \<Rightarrow> ''IGNORE''
                | Some t \<Rightarrow>
                    if toUpperCase (trim t) \<noteq> [] then toUpperCase (trim t) else ''IGNORE'')))"

text \<open>The memory made for the prompt, at the time \<open>t\<close> of \<open>Date.now()\<close>.\<close>

definition promptMemory :: "env \<Rightarrow> string \<Rightarrow> string \<Rightarrow> int \<Rightarrow> memory" where
  "promptMemory E runtimeAgentId context t =
     \<lparr>memory_id = stringToUuid (numToString t),
      memory_userId = runtimeAgentId,
      memory_agentId = runtimeAgentId,
      memory_roomId = stringToUuid ''should-respond'',
      memory_content = Some \<lparr>content_text = Some (shouldRespondPrompt context),
                              content_source = Some ''telegram'',
                              content_inReplyTo = None,
                              content_action = None\<rparr>,
      memory_createdAt = None,
      memory_embedding = getEmbeddingZeroVector E\<rparr>"

text \<open>The options of the search: \<open>{match_threshold: 0.8, count: 1, roomId, unique: true}\<close>.\<close>

definition searchOptsFor :: "string \<Rightarrow> searchOpts" where
  "searchOptsFor roomId =
     \<lparr>match_threshold = 8 / 10, search_count = 1, search_roomId = roomId, search_unique = True\<rparr>"

text \<open>
  The body of the \<open>try\<close> block. The parameter \<open>modelClass\<close> is not used by the source
  and is left out.
\<close>

definition generateShouldRespond_try :: "env \<Rightarrow> string \<Rightarrow> string \<Rightarrow> string io" where
  "generateShouldRespond_try E runtimeAgentId context =
     bind (getNow E) (\<lambda>t.
     let memory = promptMemory E runtimeAgentId context t in
     bind (createMemory E memory) (\<lambda>_.
     bind (composeState E memory) (\<lambda>state.
     bind (searchMemoriesByEmbedding E (memory_embedding memory)
             (searchOptsFor (memory_roomId memory))) (\<lambda>response.
     let decision = decisionOf response in
     if decision \<noteq> ''RESPOND'' \<and> decision \<noteq> ''IGNORE''
     then bind (logger LWarn
                  (''Invalid response from model: '' @ decision @ ''. Defaulting to IGNORE''))
            (\<lambda>_. ret ''IGNORE'')
     else bind (logger LDebug (''Should respond decision: '' @ decision))
            (\<lambda>_. ret decision)))))"

definition generateShouldRespond :: "env \<Rightarrow> string \<Rightarrow> string \<Rightarrow> string io" where
  "generateShouldRespond E runtimeAgentId context =
     tryCatch (generateShouldRespond_try E runtimeAgentId context)
       (\<lambda>error. bind (logger LError ''Error generating should-respond decision:'')
                  (\<lambda>_. ret ''IGNORE''))"

section \<open>The client (telegramClient.ts)\<close>

record character =
  shouldIgnoreBotMessages :: bool
  shouldIgnoreDirectMessages :: bool
  tpl_telegramShouldRespondTemplate :: "string option"
  tpl_shouldRespondTemplate :: "string option"
  tpl_telegramMessageHandlerTemplate :: "string option"
  tpl_messageHandlerTemplate :: "string option"

text \<open>
  What the client reads from \<open>this.bot.botInfo\<close> and \<open>this.runtime\<close>.
\<close>

record client =
  botUsername :: string
  agentId :: string
  character :: character

text \<open>\<open>a || d\<close> on an optional string: absent and empty are both falsy.\<close>

definition orElse :: "string option \<Rightarrow> string \<Rightarrow> string" where
  "orElse a d = (case a of Some s \<Rightarrow> if s \<noteq> [] then s else d | None \<Rightarrow> d)"

subsection \<open>The response decision\<close>

text \<open>
  \<open>_isMessageForMe\<close>: \<open>message.text.includes(...)\<close>; without a \<open>text\<close> the call of
  \<open>includes\<close> on \<open>undefined\<close> throws.
\<close>

definition isMessageForMe :: "client \<Rightarrow> message \<Rightarrow> bool io" where
  "isMessageForMe C message =
     (case msg_text message of
        None \<Rightarrow> throw (TypeError ''Cannot read properties of undefined (reading 'includes')'')
      | Some t \<Rightarrow> ret (includesStr t (''@'' @ botUsername C)))"

text \<open>\<open>_shouldRespondBasedOnContext\<close>.\<close>

definition shouldRespondBasedOnContext :: "message \<Rightarrow> chatState \<Rightarrow> bool" where
  "shouldRespondBasedOnContext message chatState =
     (currentHandler chatState = Some ''telegramMessageHandler'')"

text \<open>
  \<open>messageText\<close>, in \<open>_shouldRespond\<close> and in \<open>handleMessage\<close>:
  \<open>"text" in message ? message.text : "caption" in message ? message.caption : ""\<close>.
\<close>

definition messageTextOf :: "message \<Rightarrow> string" where
  "messageTextOf message =
     (case msg_text message of
        Some t \<Rightarrow> t
      | None \<Rightarrow> (case caption message of Some c \<Rightarrow> c | None \<Rightarrow> []))"

text \<open>\<open>_shouldRespond\<close>. A chat state is an object, so \<open>if (chatState)\<close> asks whether there is one.\<close>

definition shouldRespond :: "env \<Rightarrow> client \<Rightarrow> message \<Rightarrow> jsval \<Rightarrow> bool io" where
  "shouldRespond E C message state =
     bind (isMessageForMe C message) (\<lambda>forMe.
     if forMe then bind (logger LInfo ''Bot mentioned'') (\<lambda>_. ret True)
     else if chat_type (chat message) = ''private'' then ret True
     else (\<lambda>w.
       let chatId = numToString (chat_id (chat message));
           chatState = interestChats w chatId;
           messageText = messageTextOf message
       in (case chatState of
             Some cs \<Rightarrow> ret (shouldRespondBasedOnContext message cs)
           | None \<Rightarrow>
               if messageText \<noteq> [] then
                 bind (composeContext E state
                         (orElse (tpl_telegramShouldRespondTemplate (character C))
                            (orElse (tpl_shouldRespondTemplate (character C))
                               (composeRandomUser E (events w) telegramShouldRespondTemplate 2)))
                         (JObj []) Map.empty) (\<lambda>shouldRespondContext.
                 bind (generateShouldRespond E (agentId C) shouldRespondContext) (\<lambda>response.
                 ret (response = ''RESPOND'')))
               else ret False) w))"

subsection \<open>The dispatch pipeline\<close>

definition getFileLink :: "env \<Rightarrow> string \<Rightarrow> string io" where
  "getFileLink E fileId = callExt (GetFileLink fileId) (\<lambda>h. getFileLinkR E h fileId)"

definition describeImage :: "env \<Rightarrow> string \<Rightarrow> (string \<times> string) io" where
  "describeImage E imageUrl = callExt (DescribeImage imageUrl) (\<lambda>h. describeImageR E h imageUrl)"

definition sendMessage :: "env \<Rightarrow> int \<Rightarrow> string \<Rightarrow> int option \<Rightarrow> message io" where
  "sendMessage E chatId chunk replyTo =
     callExt (SendMessage chatId chunk replyTo) (\<lambda>h. sendMessageR E h chatId chunk replyTo)"

definition ensureConnection ::
  "env \<Rightarrow> string \<Rightarrow> string \<Rightarrow> string \<Rightarrow> string \<Rightarrow> string \<Rightarrow> unit io" where
  "ensureConnection E userId roomId userName userScreenName source =
     callExt (EnsureConnection userId roomId userName userScreenName source)
       (\<lambda>h. orThrow (ensureConnectionR E h))"

definition processActions :: "env \<Rightarrow> memory \<Rightarrow> memory list \<Rightarrow> jsval \<Rightarrow> unit io" where
  "processActions E memory responses state =
     callExt (ProcessActions memory responses state) (\<lambda>h. orThrow (processActionsR E h))"

definition evaluate :: "env \<Rightarrow> memory \<Rightarrow> jsval \<Rightarrow> bool \<Rightarrow> unit io" where
  "evaluate E memory state didRespond =
     callExt (Evaluate memory state didRespond) (\<lambda>h. orThrow (evaluateR E h))"

text \<open>
  \<open>processImage\<close>: the description of the image of the message, or \<open>null\<close>; every
  exception is caught inside.
\<close>

definition imageUrlOf :: "env \<Rightarrow> message \<Rightarrow> string option io" where
  "imageUrlOf E message =
     (case photo message of
        Some (p # ps) \<Rightarrow>
          bind (getFileLink E (photo_file_id (last (p # ps)))) (\<lambda>fileLink. ret (Some fileLink))
      | _ \<Rightarrow>
          (case document message of
             Some d \<Rightarrow>
               (case doc_mime_type d of
                  Some mt \<Rightarrow>
                    if take 6 mt = ''image/''
                    then bind (getFileLink E (doc_file_id d)) (\<lambda>fileLink. ret (Some fileLink))
                    else ret None
                | None \<Rightarrow> ret None)
           | None \<Rightarrow> ret None))"

definition processImage :: "env \<Rightarrow> message \<Rightarrow> string option io" where
  "processImage E message =
     tryCatch
       (bind (imageUrlOf E message) (\<lambda>imageUrl.
          case imageUrl of
            Some url \<Rightarrow>
              if url \<noteq> [] \<and> hasImageService E
              then bind (describeImage E url) (\<lambda>(title, description).
                     ret (Some (''[Image: '' @ title @ ''\<newline>'' @ description @ '']'')))
              else ret None
          | None \<Rightarrow> ret None))
       (\<lambda>error. bind (logger LError ''Error processing image:'') (\<lambda>_. ret None))"

text \<open>\<open>_generateResponse\<close>; the parameter \<open>state\<close> is not used by the source.\<close>

definition generateResponse :: "env \<Rightarrow> client \<Rightarrow> memory \<Rightarrow> string \<Rightarrow> content option io" where
  "generateResponse E C message context =
     tryCatch
       (bind (getNow E) (\<lambda>t.
        let memory = \<lparr>memory_id = stringToUuid (numToString t),
                       memory_userId = agentId C,
                       memory_agentId = agentId C,
                       memory_roomId = memory_roomId message,
                       memory_content = Some \<lparr>content_text = Some context,
                                               content_source = Some ''telegram'',
                                               content_inReplyTo = None,
                                               content_action = None\<rparr>,
                       memory_createdAt = None,
                       memory_embedding = getEmbeddingZeroVector E\<rparr> in
        bind (createMemory E memory) (\<lambda>_.
        bind (searchMemoriesByEmbedding E (memory_embedding memory)
                (searchOptsFor (memory_roomId memory))) (\<lambda>response.
        ret (case response of [] \<Rightarrow> None | r # _ \<Rightarrow> memory_content r)))))
       (\<lambda>error. bind (logger LError ''Error generating response:'') (\<lambda>_. ret None))"

text \<open>
  The loop of \<open>sendMessageInChunks\<close>, at index \<open>i\<close>, with the messages sent so far.
  \<open>replyToMessageId\<close> is a number or absent; \<open>0\<close> is falsy.
\<close>

fun sendLoop ::
  "env \<Rightarrow> int \<Rightarrow> int option \<Rightarrow> nat \<Rightarrow> string list \<Rightarrow> message list \<Rightarrow> message list io" where
  "sendLoop E chatId replyToMessageId i [] sentMessages = ret sentMessages"
| "sendLoop E chatId replyToMessageId i (chunk # chunks) sentMessages =
     bind (sendMessage E chatId chunk
             (if i = 0 \<and> replyToMessageId \<noteq> None \<and> replyToMessageId \<noteq> Some 0
              then replyToMessageId else None)) (\<lambda>sentMessage.
     sendLoop E chatId replyToMessageId (i + 1) chunks (sentMessages @ [sentMessage]))"

definition sendMessageInChunks :: "env \<Rightarrow> ctx \<Rightarrow> content \<Rightarrow> int option \<Rightarrow> message list io" where
  "sendMessageInChunks E c content replyToMessageId =
     (case ctx_message c of
        None \<Rightarrow> throw (TypeError ''Cannot read properties of undefined (reading 'id')'')
      | Some m \<Rightarrow>
          sendLoop E (chat_id (chat m)) replyToMessageId 0
            (splitMessage (case content_text content of Some t \<Rightarrow> t | None \<Rightarrow> []) 4096) [])"

text \<open>
  The memory that the callback makes for one sent message;
  \<open>memory.content.action = !isLastMessage ? "CONTINUE" : content.action\<close>.
\<close>

definition sentMemory ::
  "env \<Rightarrow> client \<Rightarrow> string \<Rightarrow> string \<Rightarrow> content \<Rightarrow> bool \<Rightarrow> message \<Rightarrow> memory" where
  "sentMemory E C roomId messageId content isLastMessage sentMessage =
     \<lparr>memory_id = stringToUuid (numToString (message_id sentMessage) @ ''-'' @ agentId C),
      memory_userId = agentId C,
      memory_agentId = agentId C,
      memory_roomId = roomId,
      memory_content =
        Some (content\<lparr>content_text := msg_text sentMessage,
                       content_inReplyTo := Some messageId,
                       content_action :=
                         (if \<not> isLastMessage then Some ''CONTINUE'' else content_action content)\<rparr>),
      memory_createdAt = Some (date sentMessage * 1000),
      memory_embedding = getEmbeddingZeroVector E\<rparr>"

text \<open>
  The loop of the callback over \<open>sentMessages\<close>, at index \<open>i\<close> of \<open>n\<close>, with the
  memories made so far.
\<close>

fun recordLoop ::
  "env \<Rightarrow> client \<Rightarrow> string \<Rightarrow> string \<Rightarrow> content \<Rightarrow> nat \<Rightarrow> nat \<Rightarrow> message list \<Rightarrow>
   memory list \<Rightarrow> memory list io" where
  "recordLoop E C roomId messageId content n i [] memories = ret memories"
| "recordLoop E C roomId messageId content n i (sentMessage # rest) memories =
     (let isLastMessage = (int i = int n - 1);
          memory = sentMemory E C roomId messageId content isLastMessage sentMessage
      in bind (createMemory E memory) (\<lambda>_.
         recordLoop E C roomId messageId content n (i + 1) rest (memories @ [memory])))"

text \<open>The \<open>callback\<close> of \<open>handleMessage\<close>.\<close>

definition callback ::
  "env \<Rightarrow> client \<Rightarrow> ctx \<Rightarrow> message \<Rightarrow> string \<Rightarrow> string \<Rightarrow> content \<Rightarrow> memory list io" where
  "callback E C c message roomId messageId content =
     bind (sendMessageInChunks E c content (Some (message_id message))) (\<lambda>sentMessages.
     recordLoop E C roomId messageId content (length sentMessages) 0 sentMessages [])"

text \<open>The tracker update at the start of \<open>handleMessage\<close>.\<close>

definition track :: "env \<Rightarrow> string \<Rightarrow> user \<Rightarrow> string \<Rightarrow> unit io" where
  "track E chatId sender messageText =
     (\<lambda>w. let old = (case interestChats w chatId of
                        Some cs \<Rightarrow> cs
                      | None \<Rightarrow> \<lparr>currentHandler = None, lastMessageSent = 0, messages = []\<rparr>);
               new = old\<lparr>messages := messages old @
                              [\<lparr>tracked_userId = stringToUuid (numToString (from_id sender)),
                                tracked_userName =
                                  orElse (username sender) (orElse (Some (first_name sender)) ''Unknown User''),
                                tracked_text = messageText,
                                tracked_source = ''telegram''\<rparr>],
                         lastMessageSent := now E (events w)\<rparr>
           in (Inr (), w\<lparr>interestChats := (interestChats w)(chatId \<mapsto> new)\<rparr>))"

text \<open>The memory that \<open>handleMessage\<close> makes of the inbound message.\<close>

definition inboundMemory :: "env \<Rightarrow> client \<Rightarrow> message \<Rightarrow> user \<Rightarrow> string \<Rightarrow> string \<Rightarrow> memory" where
  "inboundMemory E C message sender chatId fullText =
     \<lparr>memory_id = stringToUuid (numToString (message_id message) @ ''-'' @ agentId C),
      memory_userId = stringToUuid (numToString (from_id sender)),
      memory_agentId = agentId C,
      memory_roomId = stringToUuid (chatId @ ''-'' @ agentId C),
      memory_content =
        Some \<lparr>content_text = Some fullText,
              content_source = Some ''telegram'',
              content_inReplyTo =
                (case reply_to_message message of
                   Some rid \<Rightarrow> Some (stringToUuid (numToString rid @ ''-'' @ agentId C))
                 | None \<Rightarrow> None),
              content_action = None\<rparr>,
      memory_createdAt = Some (date message * 1000),
      memory_embedding = getEmbeddingZeroVector E\<rparr>"

text \<open>\<open>fullText\<close>: the text of the message, with the description of its image.\<close>

definition fullTextOf :: "string \<Rightarrow> string option \<Rightarrow> string" where
  "fullTextOf messageText imageInfo =
     (case imageInfo of
        Some description \<Rightarrow> messageText @ '' '' @ description
      | None \<Rightarrow> messageText)"

text \<open>
  The body of the \<open>try\<close> block of \<open>handleMessage\<close>. Calls that the actions of the
  runtime make to the callback they are given are runs of \<open>callback\<close> of their own; they
  are not part of this function.
\<close>

definition handleMessage_try ::
  "env \<Rightarrow> client \<Rightarrow> ctx \<Rightarrow> message \<Rightarrow> user \<Rightarrow> string \<Rightarrow> string \<Rightarrow> unit io" where
  "handleMessage_try E C c message sender chatId messageText =
     (let userId = stringToUuid (numToString (from_id sender));
          userName = orElse (username sender) (orElse (Some (first_name sender)) ''Unknown User'');
          roomId = stringToUuid (chatId @ ''-'' @ agentId C)
      in
      bind (ensureConnection E userId roomId userName userName ''telegram'') (\<lambda>_.
      let messageId = stringToUuid (numToString (message_id message) @ ''-'' @ agentId C) in
      bind (processImage E message) (\<lambda>imageInfo.
      let fullText = fullTextOf messageText imageInfo in
      if fullText = [] then ret ()
      else
        let memory = inboundMemory E C message sender chatId fullText in
        bind (createMemory E memory) (\<lambda>_.
        bind (composeState E memory) (\<lambda>state0.
        bind (updateRecentMessageState E state0) (\<lambda>state.
        bind (shouldRespond E C message state) (\<lambda>respond.
        if respond then
          bind (composeContext E state
                  (orElse (tpl_telegramMessageHandlerTemplate (character C))
                     (orElse (tpl_messageHandlerTemplate (character C))
                        telegramMessageHandlerTemplate))
                  (JObj []) Map.empty) (\<lambda>context.
          bind (generateResponse E C memory context) (\<lambda>responseContent.
          case responseContent of
            None \<Rightarrow> ret ()
          | Some rc \<Rightarrow>
              if content_text rc = None \<or> content_text rc = Some [] then ret ()
              else
                bind (callback E C c message roomId messageId rc) (\<lambda>responseMessages.
                bind (updateRecentMessageState E state) (\<lambda>state'.
                bind (processActions E memory responseMessages state') (\<lambda>_.
                evaluate E memory state' respond)))))
        else evaluate E memory state respond)))))))"

text \<open>\<open>handleMessage\<close>.\<close>

definition handleMessage :: "env \<Rightarrow> client \<Rightarrow> ctx \<Rightarrow> unit io" where
  "handleMessage E C c =
     (case ctx_message c of
        None \<Rightarrow> ret ()
      | Some message \<Rightarrow>
          (case ctx_from c of
             None \<Rightarrow> ret ()
           | Some sender \<Rightarrow>
               if shouldIgnoreBotMessages (character C) \<and> is_bot sender then ret ()
               else if shouldIgnoreDirectMessages (character C) \<and>
                       chat_type (chat message) = ''private'' then ret ()
               else
                 let chatId = numToString (chat_id (chat message));
                     messageText = messageTextOf message
                 in
                 bind (if chatId \<noteq> [] \<and> messageText \<noteq> []
                       then track E chatId sender messageText else ret ()) (\<lambda>_.
                 tryCatch (handleMessage_try E C c message sender chatId messageText)
                   (\<lambda>error. bind (logger LError ''Error handling message:'')
                              (\<lambda>_. logger LError ''Error sending message:'')))))"

section \<open>Observations and example collaborators\<close>

text \<open>The warnings in the trace of a world.\<close>

fun warningOf :: "event \<Rightarrow> string list" where
  "warningOf (Logged LWarn msg) = [msg]"
| "warningOf _ = []"

definition warnings :: "world \<Rightarrow> string list" where
  "warnings w = concat (map warningOf (events w))"

text \<open>The error lines, the searches and the evaluations in the trace of a world.\<close>

fun errorOf :: "event \<Rightarrow> string list" where
  "errorOf (Logged LError msg) = [msg]"
| "errorOf _ = []"

definition errorLines :: "world \<Rightarrow> string list" where
  "errorLines w = concat (map errorOf (events w))"

fun isSearch :: "event \<Rightarrow> bool" where
  "isSearch (SearchMemoriesByEmbedding embedding opts) = True"
| "isSearch _ = False"

definition searches :: "world \<Rightarrow> event list" where
  "searches w = filter isSearch (events w)"

fun evaluationOf :: "event \<Rightarrow> bool list" where
  "evaluationOf (Evaluate memory state didRespond) = [didRespond]"
| "evaluationOf _ = []"

definition evaluations :: "world \<Rightarrow> bool list" where
  "evaluations w = concat (map evaluationOf (events w))"

text \<open>
  The events by which the pipeline reacts to a message: a message sent, the actions
  processed, the evaluation.
\<close>

fun isReaction :: "event \<Rightarrow> bool" where
  "isReaction (SendMessage chatId chunk replyTo) = True"
| "isReaction (ProcessActions memory responses state) = True"
| "isReaction (Evaluate memory state didRespond) = True"
| "isReaction _ = False"

definition reactions :: "world \<Rightarrow> event list" where
  "reactions w = filter isReaction (events w)"

text \<open>
  A computation is quiet when it adds no reaction to the trace, and safe when it never
  throws.
\<close>

definition quiet :: "'a io \<Rightarrow> bool" where
  "quiet m = (\<forall>w. reactions (snd (m w)) = reactions w)"

definition safe :: "'a io \<Rightarrow> bool" where
  "safe m = (\<forall>w. \<exists>x. fst (m w) = Inr x)"

text \<open>
  A computation maintains an invariant of the world, with a condition on what it
  returns: from a world in which \<open>I\<close> holds it ends in a world in which \<open>I\<close> holds,
  whether it returns or throws, and what it returns satisfies \<open>Q\<close>.
\<close>

definition maintains :: "(world \<Rightarrow> bool) \<Rightarrow> 'a io \<Rightarrow> ('a \<Rightarrow> bool) \<Rightarrow> bool" where
  "maintains I m Q = (\<forall>w. I w \<longrightarrow> I (snd (m w)) \<and> (\<forall>x. fst (m w) = Inr x \<longrightarrow> Q x))"

text \<open>
  The template of the decision prompt that \<open>_shouldRespond\<close> selects, at the trace
  \<open>h\<close>.
\<close>

definition shouldRespondTemplateOf :: "env \<Rightarrow> client \<Rightarrow> event list \<Rightarrow> string" where
  "shouldRespondTemplateOf E C h =
     orElse (tpl_telegramShouldRespondTemplate (character C))
       (orElse (tpl_shouldRespondTemplate (character C))
          (composeRandomUser E h telegramShouldRespondTemplate 2))"

text \<open>
  The sends expected for a list of chunks: the first carries the reply parameter (when
  the message id is truthy), the others none.
\<close>

definition expectedSends :: "int \<Rightarrow> int option \<Rightarrow> string list \<Rightarrow> event list" where
  "expectedSends chatId replyToMessageId chunks =
     (case chunks of
        [] \<Rightarrow> []
      | chunk # rest \<Rightarrow>
          SendMessage chatId chunk
            (if replyToMessageId \<noteq> None \<and> replyToMessageId \<noteq> Some 0 then replyToMessageId else None) #
          map (\<lambda>chunk. SendMessage chatId chunk None) rest)"

text \<open>
  Prototypes for the examples. Every value finds its constructor under
  \<open>constructor\<close>, a function printed as native code. An object made by an object
  literal finds the other members of \<open>Object.prototype\<close>, functions too, and the
  prototype itself under \<open>__proto__\<close>, an object without enumerable properties. What
  strings, arrays, numbers and functions find on their own prototypes is left out: the
  examples do not read it.
\<close>

definition nativeFunction :: "string \<Rightarrow> jsval" where
  "nativeFunction name = JFun (''function '' @ name @ ''() { [native code] }'')"

fun constructorName :: "jsval \<Rightarrow> string" where
  "constructorName (JBool b) = ''Boolean''"
| "constructorName (JNum n) = ''Number''"
| "constructorName (JStr s) = ''String''"
| "constructorName (JArr xs) = ''Array''"
| "constructorName (JFun src) = ''Function''"
| "constructorName _ = ''Object''"

definition exampleInheritedProp :: "jsval \<Rightarrow> string \<Rightarrow> jsval option" where
  "exampleInheritedProp v key =
     (if key = ''constructor'' then Some (nativeFunction (constructorName v))
      else case v of
             JObj kvs \<Rightarrow>
               if key = ''__proto__'' then Some (JObj [])
               else if key \<in> set objectPrototypeNames then Some (nativeFunction key)
               else None
           | _ \<Rightarrow> None)"

text \<open>
  The inherited members called as formatters, with \<open>formatters\<close> as \<open>this\<close>, an
  object that is the prototype of no value: \<open>toString\<close>, \<open>toLocaleString\<close> and
  \<open>valueOf\<close> give \<open>[object Object]\<close>; \<open>isPrototypeOf\<close> gives \<open>false\<close>;
  \<open>hasOwnProperty\<close> and \<open>propertyIsEnumerable\<close> tell whether the value names an own
  formatter; \<open>constructor\<close> wraps the value; the lookups give \<open>undefined\<close>; the
  definers throw; and \<open>__proto__\<close> is no function. This is for \<open>formatters\<close>
  without an own \<open>toString\<close> or \<open>valueOf\<close>.
\<close>

definition exampleInheritedFormatter ::
  "(string \<Rightarrow> bool) \<Rightarrow> string \<Rightarrow> (jsval \<Rightarrow> exn + string) option" where
  "exampleInheritedFormatter own name =
     (if name \<in> set [''toString'', ''toLocaleString'', ''valueOf'']
        then Some (\<lambda>v. Inr ''[object Object]'')
      else if name = ''isPrototypeOf''
        then Some (\<lambda>v. Inr ''false'')
      else if name \<in> set [''hasOwnProperty'', ''propertyIsEnumerable'']
        then Some (\<lambda>v. Inr (if own (jsToString v) then ''true'' else ''false''))
      else if name = ''constructor''
        then Some (\<lambda>v. Inr (if v = Null then ''[object Object]'' else jsToString v))
      else if name \<in> set [''__lookupGetter__'', ''__lookupSetter__'']
        then Some (\<lambda>v. Inr ''undefined'')
      else if name \<in> set [''__defineGetter__'', ''__defineSetter__'']
        then Some (\<lambda>v. Inl (TypeError (''Object.prototype.'' @ name @ '': Expecting function'')))
      else if name = ''__proto__''
        then Some (\<lambda>v. Inl (TypeError ''formatters[formatterName] is not a function''))
      else None)"

text \<open>
  Collaborators for the examples: every call succeeds, the search answers \<open>answer\<close>
  (or throws it), and the transport returns the text it was given, numbered by the
  length of the trace.
\<close>

definition answeringEnv :: "exn + memory list \<Rightarrow> env" where
  "answeringEnv answer =
     \<lparr>now = (\<lambda>h. 1700000000000),
      randomDraw = (\<lambda>h k. k),
      getEmbeddingZeroVector = [0, 0, 0],
      ensureConnectionR = (\<lambda>h. None),
      createMemoryR = (\<lambda>h memory. None),
      composeStateR = (\<lambda>h memory. Inr (JObj [(''agentName'', JStr ''Eliza'')])),
      updateRecentMessageStateR = (\<lambda>h state. Inr state),
      searchMemoriesByEmbeddingR = (\<lambda>h embedding opts. answer),
      getFileLinkR = (\<lambda>h fileId. Inr (''https://files.example/'' @ fileId)),
      hasImageService = False,
      describeImageR = (\<lambda>h url. Inr (''title'', ''description'')),
      sendMessageR = (\<lambda>h chatId chunk replyTo.
         Inr \<lparr>message_id = int (length h), date = 1700000000,
              chat = \<lparr>chat_id = chatId, chat_type = ''group''\<rparr>,
              msg_text = Some chunk, caption = None, photo = None, document = None,
              reply_to_message = replyTo\<rparr>),
      processActionsR = (\<lambda>h. None),
      evaluateR = (\<lambda>h. None),
      inheritedProp = exampleInheritedProp,
      inheritedFormatter = exampleInheritedFormatter\<rparr>"

definition replyMemory :: "string \<Rightarrow> memory" where
  "replyMemory t =
     \<lparr>memory_id = ''00000000-0000-0000-0000-000000000001'',
      memory_userId = ''agent'', memory_agentId = ''agent'', memory_roomId = ''room'',
      memory_content = Some \<lparr>content_text = Some t, content_source = Some ''telegram'',
                              content_inReplyTo = None, content_action = Some ''NONE''\<rparr>,
      memory_createdAt = None, memory_embedding = []\<rparr>"

definition exampleClient :: client where
  "exampleClient =
     \<lparr>botUsername = ''agentbot'', agentId = ''agent'',
      character = \<lparr>shouldIgnoreBotMessages = False, shouldIgnoreDirectMessages = False,
                    tpl_telegramShouldRespondTemplate = Some ''{{agentName}}: RESPOND or IGNORE?'',
                    tpl_shouldRespondTemplate = None,
                    tpl_telegramMessageHandlerTemplate = Some ''{{agentName}}, answer.'',
                    tpl_messageHandlerTemplate = None\<rparr>\<rparr>"

text \<open>A message of a group chat, with a text or with a caption only.\<close>

definition groupMessage :: "string option \<Rightarrow> string option \<Rightarrow> message" where
  "groupMessage t c =
     \<lparr>message_id = 7, date = 1700000000,
      chat = \<lparr>chat_id = - 1001, chat_type = ''group''\<rparr>,
      msg_text = t, caption = c, photo = None, document = None, reply_to_message = None\<rparr>"

definition exampleSender :: user where
  "exampleSender = \<lparr>from_id = 42, is_bot = False, username = Some ''alice'', first_name = ''Alice''\<rparr>"

text \<open>The context of a message with the text \<open>hello everyone\<close>.\<close>

definition helloContext :: ctx where
  "helloContext =
     \<lparr>ctx_message = Some (groupMessage (Some ''hello everyone'') None),
      ctx_from = Some exampleSender\<rparr>"

text \<open>A world in which the chat of \<open>groupMessage\<close> has a state with no handler.\<close>

definition trackedWorld :: world where
  "trackedWorld =
     \<lparr>events = [],
      interestChats = [''-1001'' \<mapsto> \<lparr>currentHandler = None, lastMessageSent = 0, messages = []\<rparr>]\<rparr>"

text \<open>The same, with the handler of this client set.\<close>

definition handledWorld :: world where
  "handledWorld =
     \<lparr>events = [],
      interestChats = [''-1001'' \<mapsto> \<lparr>currentHandler = Some ''telegramMessageHandler'',
                                        lastMessageSent = 0, messages = []\<rparr>]\<rparr>"

text \<open>A context whose message has a caption that mentions the agent, and no text.\<close>

definition captionContext :: ctx where
  "captionContext =
     \<lparr>ctx_message = Some (groupMessage None (Some ''@agentbot look at this'')),
      ctx_from = Some exampleSender\<rparr>"

text \<open>
  A response of two chunks: a short line and a line of 4096 characters; and the context
  of a message with a text.
\<close>

definition twoChunkText :: string where
  "twoChunkText = ''a\<newline>'' @ replicate 4096 (CHR ''b'')"

definition exampleContent :: content where
  "exampleContent =
     \<lparr>content_text = Some twoChunkText, content_source = Some ''telegram'',
      content_inReplyTo = None, content_action = Some ''NONE''\<rparr>"

definition textContext :: ctx where
  "textContext =
     \<lparr>ctx_message = Some (groupMessage (Some ''@agentbot tell me'') None),
      ctx_from = Some exampleSender\<rparr>"

section \<open>Proofs: stringToUuid\<close>

lemma hexDigit_isHexLower: "d < 16 \<Longrightarrow> isHexLower (hexDigit d)"
  unfolding hexDigit_def isHexLower_def by (rule nth_mem) simp

lemma toString16_hex: "list_all isHexLower (toString16 n)"
proof (induction n rule: toString16.induct)
  case (1 n)
  show ?case
  proof (cases "n < 16")
    case True
    then show ?thesis by (subst toString16.simps) (simp add: hexDigit_isHexLower)
  next
    case False
    with 1 show ?thesis by (subst toString16.simps) (simp add: hexDigit_isHexLower)
  qed
qed

lemma toString16_length: "n < 16 ^ Suc k \<Longrightarrow> length (toString16 n) \<le> Suc k"
proof (induction k arbitrary: n)
  case 0
  then show ?case by (subst toString16.simps) simp
next
  case (Suc k)
  show ?case
  proof (cases "n < 16")
    case True
    then show ?thesis by (subst toString16.simps) simp
  next
    case False
    from Suc.prems have "n div 16 < 16 ^ Suc k"
      by (simp add: less_mult_imp_div_less mult.commute)
    from Suc.IH [OF this] False show ?thesis by (subst toString16.simps) simp
  qed
qed

lemma abs_sint32_bound: "nat \<bar>sint (w :: 32 word)\<bar> < 16 ^ Suc 7"
proof -
  have "- (2 ^ 31) \<le> sint w" "sint w < 2 ^ 31"
    using sint_range_size [of w] by (simp_all add: word_size)
  then show ?thesis by simp
qed

lemma hashHex_length: "length (hashHex str) = 32"
  using toString16_length [OF abs_sint32_bound, of "hashLoop 0 str"]
  by (simp add: hashHex_def padStart_def)

lemma hashHex_hex: "list_all isHexLower (hashHex str)"
proof -
  have "isHexLower (CHR ''0'')" by (simp add: isHexLower_def)
  then show ?thesis
    using toString16_hex [of "nat \<bar>sint (hashLoop 0 str)\<bar>"]
    by (auto simp: hashHex_def padStart_def list_all_iff)
qed

lemma list_all_slice: "list_all P s \<Longrightarrow> list_all P (slice a b s)"
  by (auto simp: slice_def list_all_iff dest: in_set_takeD in_set_dropD)

text \<open>
  C8. \<open>stringToUuid\<close> is a function of its argument alone (it reads no state, so two
  evaluations on the same string agree), and its result always has 36 characters, in
  the grouped form 8-4-4-4-12 of lowercase hex digits.
\<close>

theorem stringToUuid_deterministic_format:
  "stringToUuid x = stringToUuid x \<and> length (stringToUuid x) = 36 \<and> isUuidFormat (stringToUuid x)"
proof -
  let ?h = "hashHex x"
  have len: "length ?h = 32" by (rule hashHex_length)
  have hex: "list_all isHexLower ?h" by (rule hashHex_hex)
  have l: "length (slice 0 8 ?h) = 8" "length (slice 8 12 ?h) = 4" "length (slice 12 16 ?h) = 4"
    "length (slice 16 20 ?h) = 4" "length (slice 20 32 ?h) = 12"
    using len by (simp_all add: slice_def)
  have a: "list_all isHexLower
             (slice 0 8 ?h @ slice 8 12 ?h @ slice 12 16 ?h @ slice 16 20 ?h @ slice 20 32 ?h)"
    using hex by (simp add: list_all_slice)
  have "isUuidFormat (stringToUuid x)"
    unfolding isUuidFormat_def stringToUuid_def Let_def
    using l a by blast
  moreover have "length (stringToUuid x) = 36"
    using l by (simp add: stringToUuid_def Let_def)
  ultimately show ?thesis by simp
qed

theorem stringToUuid_format_witness:
  "length (stringToUuid ''should-respond'') = 36 \<and> isUuidFormat (stringToUuid ''should-respond'')"
  using stringToUuid_deterministic_format [of "''should-respond''"] by simp

section \<open>Proofs: splitMessage\<close>

lemma splitOn_nonempty: "splitOn sep s \<noteq> []"
  by (induction s) (auto split: list.splits)

lemma joinWith_Cons: "ls \<noteq> [] \<Longrightarrow> joinWith sep (l # ls) = l @ sep @ joinWith sep ls"
  by (cases ls) auto

lemma joinWith_splitOn: "joinWith [sep] (splitOn sep s) = s"
proof (induction s)
  case Nil
  show ?case by simp
next
  case (Cons c cs)
  show ?case
  proof (cases "c = sep")
    case True
    with Cons show ?thesis by (simp add: joinWith_Cons splitOn_nonempty)
  next
    case False
    obtain l ls where e: "splitOn sep cs = l # ls"
      using splitOn_nonempty [of sep cs] by (cases "splitOn sep cs") auto
    with Cons False show ?thesis by (cases ls) auto
  qed
qed

lemma splitOn_no_sep: "l \<in> set (splitOn sep s) \<Longrightarrow> sep \<notin> set l"
proof (induction s arbitrary: l)
  case Nil
  then show ?case by simp
next
  case (Cons c cs)
  obtain k ks where e: "splitOn sep cs = k # ks"
    using splitOn_nonempty [of sep cs] by (cases "splitOn sep cs") auto
  with Cons show ?case by (auto split: if_splits)
qed

lemma joinWith_append:
  "xs \<noteq> [] \<Longrightarrow> ys \<noteq> [] \<Longrightarrow> joinWith sep (xs @ ys) = joinWith sep xs @ sep @ joinWith sep ys"
proof (induction xs)
  case Nil
  then show ?case by simp
next
  case (Cons x xs)
  then show ?case by (cases xs) (auto simp: joinWith_Cons)
qed

lemma joinWith_merge:
  "joinWith sep (chunks @ (c @ sep @ l) # ls) = joinWith sep (chunks @ c # l # ls)"
proof (cases "chunks = []")
  case True
  then show ?thesis by (cases ls) auto
next
  case False
  have "joinWith sep ((c @ sep @ l) # ls) = joinWith sep (c # l # ls)" by (cases ls) auto
  with False show ?thesis by (simp add: joinWith_append)
qed

lemma splitLoop_kept:
  "joinWith ''\<newline>'' (pushLast (splitLoop m chunks cur lines)) =
   joinWith ''\<newline>'' (pushLast (chunks, cur) @ keptLines m cur lines)"
proof (induction lines arbitrary: chunks cur)
  case Nil
  show ?case by simp
next
  case (Cons line lines)
  show ?case
  proof (cases "int (length cur) + int (length line) + 1 \<le> m")
    case fits: True
    show ?thesis
    proof (cases "cur = []")
      case True
      with fits Cons [of chunks line] show ?thesis by (simp add: pushLast_def)
    next
      case False
      have "joinWith ''\<newline>'' (chunks @ (cur @ ''\<newline>'' @ line) # keptLines m (cur @ ''\<newline>'' @ line) lines) =
            joinWith ''\<newline>'' (chunks @ cur # line # keptLines m (cur @ ''\<newline>'' @ line) lines)"
        by (rule joinWith_merge)
      with False fits Cons [of chunks "cur @ ''\<newline>'' @ line"]
      show ?thesis by (simp add: pushLast_def)
    qed
  next
    case False
    then show ?thesis using Cons [of "if cur \<noteq> [] then chunks @ [cur] else chunks" line]
      by (auto simp: pushLast_def)
  qed
qed

lemma keptLines_same: "\<not> losesLine m cur lines \<Longrightarrow> keptLines m cur lines = lines"
  by (induction lines arbitrary: cur) (auto split: if_splits)

lemma keptLines_length: "length (keptLines m cur lines) \<le> length lines"
proof (induction lines arbitrary: cur)
  case Nil
  show ?case by simp
next
  case (Cons line lines)
  have "length (keptLines m c lines) \<le> Suc (length lines)" for c
    using Cons [of c] by simp
  with Cons show ?case by simp
qed

lemma keptLines_shorter: "losesLine m cur lines \<Longrightarrow> length (keptLines m cur lines) < length lines"
proof (induction lines arbitrary: cur)
  case Nil
  then show ?case by simp
next
  case (Cons line lines)
  have le: "length (keptLines m c lines) < Suc (length lines)" for c
    using keptLines_length [of m c lines] by simp
  show ?case
  proof (cases "int (length cur) + int (length line) + 1 \<le> m")
    case fits: True
    show ?thesis
    proof (cases "line = [] \<and> cur = []")
      case True
      with fits le show ?thesis by simp
    next
      case False
      with fits Cons.prems have
        "losesLine m (cur @ (if cur \<noteq> [] then ''\<newline>'' else []) @ line) lines"
        by auto
      from Cons.IH [OF this] fits False show ?thesis by auto
    qed
  next
    case nofit: False
    show ?thesis
    proof (cases "line = []")
      case True
      with nofit le show ?thesis by simp
    next
      case False
      with nofit Cons.prems have "losesLine m line lines" by simp
      from Cons.IH [OF this] nofit False show ?thesis by simp
    qed
  qed
qed

lemma keptLines_subset: "set (keptLines m cur lines) \<subseteq> set lines"
proof (induction lines arbitrary: cur)
  case Nil
  show ?case by simp
next
  case (Cons line lines)
  have "set (keptLines m c lines) \<subseteq> insert line (set lines)" for c
    using Cons [of c] by auto
  then show ?case by auto
qed

lemma count_joinWith:
  "ls \<noteq> [] \<Longrightarrow> \<forall>l \<in> set ls. sep \<notin> set l \<Longrightarrow>
   length (filter (\<lambda>c. c = sep) (joinWith [sep] ls)) = length ls - 1"
proof (induction ls)
  case Nil
  then show ?case by simp
next
  case (Cons l ls)
  have l: "filter (\<lambda>c. c = sep) l = []"
    using Cons.prems(2) by (auto simp: filter_empty_conv)
  show ?case
  proof (cases "ls = []")
    case True
    with l show ?thesis by simp
  next
    case False
    with Cons have "length (filter (\<lambda>c. c = sep) (joinWith [sep] ls)) = length ls - 1" by simp
    with False l show ?thesis by (simp add: joinWith_Cons)
  qed
qed

lemma splitMessage_kept:
  "joinWith ''\<newline>'' (splitMessage text m) =
   joinWith ''\<newline>'' (keptLines m [] (splitOn (CHR 0x0A) text))"
  using splitLoop_kept [of m "[]" "[]" "splitOn (CHR 0x0A) text"]
  by (simp add: splitMessage_def pushLast_def)

lemma splitMessage_roundtrip_iff:
  "joinWith ''\<newline>'' (splitMessage text m) = text \<longleftrightarrow>
   text = [] \<or> \<not> losesLine m [] (splitOn (CHR 0x0A) text)"
proof
  assume "text = [] \<or> \<not> losesLine m [] (splitOn (CHR 0x0A) text)"
  then show "joinWith ''\<newline>'' (splitMessage text m) = text"
  proof
    assume "text = []"
    then show ?thesis by (simp add: splitMessage_def pushLast_def)
  next
    assume "\<not> losesLine m [] (splitOn (CHR 0x0A) text)"
    then have "keptLines m [] (splitOn (CHR 0x0A) text) = splitOn (CHR 0x0A) text"
      by (rule keptLines_same)
    then show ?thesis
      using joinWith_splitOn [of "CHR 0x0A" "text"] by (simp add: splitMessage_kept)
  qed
next
  let ?lines = "splitOn (CHR 0x0A) text"
  let ?kept = "keptLines m [] ?lines"
  assume rt: "joinWith ''\<newline>'' (splitMessage text m) = text"
  show "text = [] \<or> \<not> losesLine m [] ?lines"
  proof (rule ccontr)
    assume "\<not> (text = [] \<or> \<not> losesLine m [] ?lines)"
    then have ne: "text \<noteq> []" and loses: "losesLine m [] ?lines" by simp_all
    from rt have j: "joinWith ''\<newline>'' ?kept = text" by (simp add: splitMessage_kept)
    with ne have k: "?kept \<noteq> []" by auto
    have nosep: "\<forall>l \<in> set ?lines. CHR 0x0A \<notin> set l"
      using splitOn_no_sep by blast
    then have nosep': "\<forall>l \<in> set ?kept. CHR 0x0A \<notin> set l"
      using keptLines_subset [of m "[]" ?lines] by blast
    have "length (filter (\<lambda>c. c = CHR 0x0A) (joinWith ''\<newline>'' ?lines)) = length ?lines - 1"
      using count_joinWith [OF splitOn_nonempty nosep] by simp
    then have 1: "length (filter (\<lambda>c. c = CHR 0x0A) text) = length ?lines - 1"
      using joinWith_splitOn [of "CHR 0x0A" "text"] by simp
    have "length (filter (\<lambda>c. c = CHR 0x0A) (joinWith ''\<newline>'' ?kept)) = length ?kept - 1"
      using count_joinWith [OF k nosep'] by simp
    with j have 2: "length (filter (\<lambda>c. c = CHR 0x0A) text) = length ?kept - 1" by simp
    from keptLines_shorter [OF loses] k have "length ?kept - 1 < length ?lines - 1"
      by (cases ?kept) auto
    with 1 2 show False by simp
  qed
qed

lemma splitLoop_fits:
  assumes "\<forall>c \<in> set chunks. P c" and "cur = [] \<or> P cur"
    and "\<forall>l \<in> set lines. l = [] \<or> P l"
    and short: "\<And>c. int (length c) \<le> m \<Longrightarrow> P c"
  shows "\<forall>c \<in> set (pushLast (splitLoop m chunks cur lines)). P c"
  using assms(1-3)
proof (induction lines arbitrary: chunks cur)
  case Nil
  then show ?case by (auto simp: pushLast_def)
next
  case (Cons line lines)
  have rest: "\<forall>l \<in> set lines. l = [] \<or> P l"
    using Cons.prems(3) by simp
  have line: "line = [] \<or> P line"
    using Cons.prems(3) by simp
  show ?case
  proof (cases "int (length cur) + int (length line) + 1 \<le> m")
    case True
    let ?cur = "cur @ (if cur \<noteq> [] then ''\<newline>'' else []) @ line"
    have eq: "splitLoop m chunks cur (line # lines) = splitLoop m chunks ?cur lines"
      using True by simp
    have "int (length ?cur) \<le> m" using True by auto
    then have "P ?cur" by (rule short)
    then have "?cur = [] \<or> P ?cur" ..
    with Cons.prems(1) have "\<forall>c \<in> set (pushLast (splitLoop m chunks ?cur lines)). P c"
      using rest by (rule Cons.IH)
    then show ?thesis by (simp only: eq)
  next
    case False
    let ?chunks = "if cur \<noteq> [] then chunks @ [cur] else chunks"
    have eq: "splitLoop m chunks cur (line # lines) = splitLoop m ?chunks line lines"
      using False by simp
    have "\<forall>c \<in> set ?chunks. P c" using Cons.prems(1,2) by auto
    then have "\<forall>c \<in> set (pushLast (splitLoop m ?chunks line lines)). P c"
      using line rest by (rule Cons.IH)
    then show ?thesis by (simp only: eq)
  qed
qed

lemma splitMessage_fits:
  "\<forall>c \<in> set (splitMessage text m).
     int (length c) \<le> m \<or> (c \<in> set (splitOn (CHR 0x0A) text) \<and> m < int (length c))"
  unfolding splitMessage_def
proof (rule splitLoop_fits)
  show "\<forall>c\<in>set []. int (length c) \<le> m \<or> c \<in> set (splitOn (CHR 0x0A) text) \<and> m < int (length c)"
    by simp
  show "[] = [] \<or> int (length []) \<le> m \<or> [] \<in> set (splitOn (CHR 0x0A) text) \<and> m < int (length [])"
    by simp
  show "\<forall>l\<in>set (splitOn (CHR 0x0A) text).
          l = [] \<or> int (length l) \<le> m \<or> l \<in> set (splitOn (CHR 0x0A) text) \<and> m < int (length l)"
    by auto
  show "\<And>c. int (length c) \<le> m \<Longrightarrow>
          int (length c) \<le> m \<or> c \<in> set (splitOn (CHR 0x0A) text) \<and> m < int (length c)"
    by simp
qed

text \<open>
  C3, as the code has it. The chunks joined by line breaks are the lines that the loop
  keeps, joined by line breaks: an empty line is lost when it arrives while the current
  chunk is empty or when it does not fit, and every other line is kept, in order. So the
  text comes back exactly when it is empty or no empty line of it is lost. Without any
  condition, every chunk has at most \<open>maxLength\<close> characters or is one line of the
  text, longer than \<open>maxLength\<close> and without a line break.
\<close>

theorem splitMessage_chunks:
  "joinWith ''\<newline>'' (splitMessage text maxLength) =
     joinWith ''\<newline>'' (keptLines maxLength [] (splitOn (CHR 0x0A) text)) \<and>
   (joinWith ''\<newline>'' (splitMessage text maxLength) = text \<longleftrightarrow>
      text = [] \<or> \<not> losesLine maxLength [] (splitOn (CHR 0x0A) text)) \<and>
   (\<forall>c \<in> set (splitMessage text maxLength).
      int (length c) \<le> maxLength \<or>
      (c \<in> set (splitOn (CHR 0x0A) text) \<and> CHR 0x0A \<notin> set c \<and> maxLength < int (length c)))"
proof -
  have "\<forall>c \<in> set (splitMessage text maxLength).
      int (length c) \<le> maxLength \<or>
      (c \<in> set (splitOn (CHR 0x0A) text) \<and> CHR 0x0A \<notin> set c \<and> maxLength < int (length c))"
    using splitMessage_fits [of "text" maxLength] splitOn_no_sep [of _ "CHR 0x0A" "text"]
    by blast
  with splitMessage_kept [of "text" maxLength] splitMessage_roundtrip_iff [of "text" maxLength]
  show ?thesis by blast
qed

theorem splitMessage_chunks_witness:
  "splitMessage ''a\<newline>\<newline>b'' 4096 = [''a\<newline>\<newline>b''] \<and>
   joinWith ''\<newline>'' (splitMessage ''a\<newline>\<newline>b'' 4096) = ''a\<newline>\<newline>b'' \<and>
   joinWith ''\<newline>'' (splitMessage ''a\<newline>'' 4096) = ''a\<newline>'' \<and>
   splitMessage ''a\<newline>bbbbb'' 4 = [''a'', ''bbbbb''] \<and>
   joinWith ''\<newline>'' (splitMessage ''a\<newline>bbbbb'' 4) = ''a\<newline>bbbbb'' \<and>
   keptLines 4 [] (splitOn (CHR 0x0A) ''aaaa\<newline>\<newline>b'') = [''aaaa'', ''b''] \<and>
   joinWith ''\<newline>'' (splitMessage ''aaaa\<newline>\<newline>b'' 4) = ''aaaa\<newline>b''"
  using splitMessage_chunks [of "''a\<newline>\<newline>b''" 4096]
    splitMessage_chunks [of "''a\<newline>''" 4096]
    splitMessage_chunks [of "''a\<newline>bbbbb''" 4]
    splitMessage_chunks [of "''aaaa\<newline>\<newline>b''" 4]
  by (simp add: splitMessage_def pushLast_def)

text \<open>
  The claim as the specification states it fails on a text that starts with a line
  break: the chunks of \<open>"\na"\<close> are \<open>["a"]\<close>.
\<close>

theorem splitMessage_roundtrip_counterexample:
  "splitMessage ''\<newline>a'' 4096 = [''a''] \<and>
   joinWith ''\<newline>'' (splitMessage ''\<newline>a'' 4096) \<noteq> ''\<newline>a''"
  by (simp add: splitMessage_def pushLast_def)

section \<open>Proofs: cosineSimilarity\<close>

lemma p52: "2 powr (52::real) = 2 ^ 52"
  by (simp only: powr_numeral zero_le_numeral)

lemma pm52: "2 powr (- 52::real) = 1 / 2 ^ 52"
  by (simp only: powr_minus p52 inverse_eq_divide)

lemma p51: "2 powr (51::real) = 2 ^ 51"
  by (simp only: powr_numeral zero_le_numeral)

lemma pm51: "2 powr (- 51::real) = 1 / 2 ^ 51"
  by (simp only: powr_minus p51 inverse_eq_divide)

lemma rd_unfold: "0 < x \<Longrightarrow> \<lfloor>log 2 x\<rfloor> = e \<Longrightarrow>
  roundDouble x = of_int (rne (x * 2 powr (52 - of_int e))) * 2 powr (of_int e - 52)"
  unfolding roundDouble_def by (simp only: not_le [symmetric] if_False)

lemma e0: "1 \<le> x \<Longrightarrow> x < 2 \<Longrightarrow> \<lfloor>log 2 x\<rfloor> = 0"
  using floor_log_eq_powr_iff [of x 2 0] by simp

lemma e1: "2 \<le> x \<Longrightarrow> x < 4 \<Longrightarrow> \<lfloor>log 2 x\<rfloor> = 1"
  using floor_log_eq_powr_iff [of x 2 1] by simp

lemma rne_near:
  assumes "of_int n - 1 / 2 < y" "y < of_int n + 1 / 2"
  shows "rne y = n"
proof (cases "of_int n \<le> y")
  case True
  with assms have "\<lfloor>y\<rfloor> = n" by linarith
  with assms show ?thesis by (simp add: rne_def Let_def)
next
  case False
  with assms have f: "\<lfloor>y\<rfloor> = n - 1" by linarith
  with assms have "\<not> y - of_int (n - 1) < 1 / 2" "1 / 2 < y - of_int (n - 1)" by simp_all
  with f show ?thesis by (simp add: rne_def Let_def)
qed

lemma roundDouble_unit:
  assumes "1 \<le> x" "x < 2"
    and "of_int n - 1 / 2 < x * 2 ^ 52" "x * 2 ^ 52 < of_int n + 1 / 2"
  shows "roundDouble x = of_int n / 2 ^ 52"
proof -
  have "roundDouble x = of_int (rne (x * 2 powr (52 - of_int 0))) * 2 powr (of_int 0 - 52)"
    using assms(1,2) by (intro rd_unfold e0) simp_all
  also have "2 powr (52 - of_int 0) = (2::real) ^ 52" using p52 by simp
  also have "2 powr (of_int 0 - 52) = 1 / (2::real) ^ 52" using pm52 by simp
  also have "rne (x * 2 ^ 52) = n" using assms(3,4) by (rule rne_near)
  finally show ?thesis by simp
qed

lemma roundDouble_two:
  assumes "2 \<le> x" "x < 4"
    and "of_int n - 1 / 2 < x * 2 ^ 51" "x * 2 ^ 51 < of_int n + 1 / 2"
  shows "roundDouble x = of_int n / 2 ^ 51"
proof -
  have "roundDouble x = of_int (rne (x * 2 powr (52 - of_int 1))) * 2 powr (of_int 1 - 52)"
    using assms(1,2) by (intro rd_unfold e1) simp_all
  also have "2 powr (52 - of_int 1) = (2::real) ^ 51" using p51 by simp
  also have "2 powr (of_int 1 - 52) = 1 / (2::real) ^ 51" using pm51 by simp
  also have "rne (x * 2 ^ 51) = n" using assms(3,4) by (rule rne_near)
  finally show ?thesis by simp
qed

lemma roundDouble_1 [simp]: "roundDouble 1 = 1"
  using roundDouble_unit [of 1 "2 ^ 52"] by simp

lemma roundDouble_2 [simp]: "roundDouble 2 = 2"
  using roundDouble_two [of 2 "2 ^ 52"] by simp

lemma roundDouble_3 [simp]: "roundDouble 3 = 3"
  using roundDouble_two [of 3 "3 * 2 ^ 51"] by simp








lemma roundDouble_zero [simp]: "roundDouble 0 = 0"
  by (simp add: roundDouble_def)

lemma rne_ge_floor: "\<lfloor>y\<rfloor> \<le> rne y"
  by (simp add: rne_def Let_def)

lemma roundDouble_nonneg: "0 \<le> roundDouble x"
proof (cases "x \<le> 0")
  case True
  then show ?thesis by (simp add: roundDouble_def)
next
  case False
  define y where "y = x * 2 powr (52 - of_int \<lfloor>log 2 x\<rfloor>)"
  from False have "0 \<le> y" by (simp add: y_def)
  then have "0 \<le> \<lfloor>y\<rfloor>" by simp
  then have "0 \<le> rne y" using rne_ge_floor [of y] by linarith
  then have "0 \<le> real_of_int (rne y) * 2 powr (of_int \<lfloor>log 2 x\<rfloor> - 52)" by simp
  with False show ?thesis unfolding roundDouble_def y_def by (simp only: if_False)
qed

lemma roundDouble_pos:
  assumes "0 < x"
  shows "0 < roundDouble x"
proof -
  define e where "e = \<lfloor>log 2 x\<rfloor>"
  define y where "y = x * 2 powr (52 - of_int e)"
  have "2 powr of_int e \<le> x"
    using assms floor_log_eq_powr_iff [of x 2 e] by (simp add: e_def)
  then have "2 powr of_int e * 2 powr (52 - of_int e) \<le> y"
    unfolding y_def by (rule mult_right_mono) simp
  moreover have "2 powr of_int e * 2 powr (52 - of_int e) = 2 powr (52::real)"
    by (simp add: powr_add [symmetric])
  ultimately have "2 ^ 52 \<le> y" by (simp only: p52)
  moreover have "(1::real) \<le> 2 ^ 52" by simp
  ultimately have "1 \<le> y" by linarith
  then have "1 \<le> \<lfloor>y\<rfloor>" by linarith
  then have "0 < rne y" using rne_ge_floor [of y] by linarith
  then have "0 < real_of_int (rne y) * 2 powr (of_int e - 52)" by simp
  moreover have "roundDouble x = of_int (rne y) * 2 powr (of_int e - 52)"
    unfolding y_def using assms by (intro rd_unfold) (simp_all add: e_def)
  ultimately show ?thesis by simp
qed





lemma nonNegative_numSqrt: "nonNegative a \<Longrightarrow> nonNegative (numSqrt a)"
  by (cases a) (simp_all add: roundDouble_nonneg)

lemma numAdd_NaN [simp]: "numAdd NaN v = NaN" "numAdd v NaN = NaN"
  by (cases v, simp_all)+

lemma numMul_NaN [simp]: "numMul NaN v = NaN" "numMul v NaN = NaN"
  by (cases v, simp_all)+

lemma numMax_NaN [simp]: "numMax NaN v = NaN" "numMax v NaN = NaN"
  by (cases v, simp_all)+

lemma numDiv_NaN [simp]: "numDiv NaN v = NaN" "numDiv v NaN = NaN"
  by (cases v, simp_all)+


























lemma numMul_pos: "0 < x \<Longrightarrow> 0 < y \<Longrightarrow> \<exists>z. numMul (Num x) (Num y) = Num z \<and> 0 < z"
  by (simp add: roundDouble_pos)

lemma numDiv_nonneg: "0 \<le> x \<Longrightarrow> 0 < y \<Longrightarrow> nonNegative (numDiv (Num x) (Num y))"
  by (simp add: roundDouble_nonneg)



















section \<open>Proofs: composeContext\<close>

lemma bind_ret: "bind (ret x) f = f x"
  by (simp add: bind_def ret_def)

lemma bind_assoc: "bind (bind m f) g = bind m (\<lambda>x. bind (f x) g)"
  by (auto simp: bind_def fun_eq_iff split: prod.splits sum.splits)

lemma scanTemplate_literal:
  "CHR ''{'' \<notin> set pre \<Longrightarrow> scanTemplate (pre @ rest) = map Literal pre @ scanTemplate rest"
proof (induction pre)
  case Nil
  show ?case by simp
next
  case (Cons c pre)
  then have "c \<noteq> CHR ''{''" by auto
  then have "matchPlaceholder (c # pre @ rest) = None"
    by (simp add: matchPlaceholder_def)
  with Cons show ?case by (simp add: scanTemplate.simps)
qed

lemma takeWhile_stop: "\<forall>c \<in> set xs. P c \<Longrightarrow> \<not> P y \<Longrightarrow> takeWhile P (xs @ y # ys) = xs"
  by (induction xs) auto

lemma dropWhile_stop: "\<forall>c \<in> set xs. P c \<Longrightarrow> \<not> P y \<Longrightarrow> dropWhile P (xs @ y # ys) = y # ys"
  by (induction xs) auto

lemma matchPlaceholder_placeholder:
  assumes "wellFormed variable formatter"
  shows "matchPlaceholder (placeholderText variable formatter @ post) =
         Some (placeholderText variable formatter, variable, formatter, post)"
proof (cases formatter)
  case None
  let ?P = "\<lambda>c. c \<noteq> CHR ''}'' \<and> c \<noteq> CHR ''|''"
  from assms have v: "variable \<noteq> []" "\<forall>c \<in> set variable. ?P c"
    by (auto simp: wellFormed_def)
  have "takeWhile ?P (variable @ CHR ''}'' # CHR ''}'' # post) = variable"
    "dropWhile ?P (variable @ CHR ''}'' # CHR ''}'' # post) = CHR ''}'' # CHR ''}'' # post"
    using v(2) by (simp_all add: takeWhile_stop dropWhile_stop)
  with None v(1) show ?thesis
    by (simp add: matchPlaceholder_def placeholderText_def)
next
  case (Some f)
  let ?P = "\<lambda>c. c \<noteq> CHR ''}'' \<and> c \<noteq> CHR ''|''"
  let ?Q = "\<lambda>c. c \<noteq> CHR ''}''"
  from assms Some have v: "variable \<noteq> []" "\<forall>c \<in> set variable. ?P c"
    and f: "f \<noteq> []" "\<forall>c \<in> set f. ?Q c"
    by (auto simp: wellFormed_def)
  have 1: "takeWhile ?P (variable @ CHR ''|'' # f @ CHR ''}'' # CHR ''}'' # post) = variable"
    "dropWhile ?P (variable @ CHR ''|'' # f @ CHR ''}'' # CHR ''}'' # post) =
       CHR ''|'' # f @ CHR ''}'' # CHR ''}'' # post"
    using v(2) by (simp_all add: takeWhile_stop dropWhile_stop)
  have 2: "takeWhile ?Q (f @ CHR ''}'' # CHR ''}'' # post) = f"
    "dropWhile ?Q (f @ CHR ''}'' # CHR ''}'' # post) = CHR ''}'' # CHR ''}'' # post"
    using f(2) by (simp_all add: takeWhile_stop dropWhile_stop)
  from Some v(1) f(1) 1 2 show ?thesis
    by (simp add: matchPlaceholder_def placeholderText_def)
qed

lemma scanTemplate_placeholder:
  assumes "wellFormed variable formatter"
  shows "scanTemplate (placeholderText variable formatter @ post) =
         Placeholder (placeholderText variable formatter) variable formatter # scanTemplate post"
proof -
  obtain cs where cs: "placeholderText variable formatter @ post = CHR ''{'' # cs"
    by (simp add: placeholderText_def)
  from matchPlaceholder_placeholder [OF assms, of post] show ?thesis
    unfolding cs by (simp add: scanTemplate.simps)
qed

lemma composeSegments_literals:
  "composeSegments E state dv fmts (map Literal pre @ segs) =
   bind (composeSegments E state dv fmts segs) (\<lambda>out. ret (pre @ out))"
proof (induction pre)
  case Nil
  show ?case by (auto simp: bind_def ret_def fun_eq_iff split: prod.splits sum.splits)
next
  case (Cons c pre)
  then show ?case by (simp add: bind_assoc bind_ret)
qed



lemma composeContext_split:
  assumes "CHR ''{'' \<notin> set pre" and "wellFormed variable formatter"
  shows "composeContext E state (pre @ placeholderText variable formatter @ post) dv fmts =
         bind (replacePlaceholder E state dv fmts (placeholderText variable formatter) variable formatter) (\<lambda>r.
         bind (composeContext E state post dv fmts) (\<lambda>out. ret (pre @ r @ out)))"
  using assms
  by (simp add: composeContext_def scanTemplate_literal scanTemplate_placeholder
      composeSegments_literals bind_assoc bind_ret)














section \<open>Proofs: the response decision\<close>

lemmas io_defs = bind_def ret_def throw_def tryCatch_def emit_def logger_def callExt_def orThrow_def

text \<open>
  C5. A message whose text contains \<open>@\<close> and the handle of the agent: the decision is
  \<open>true\<close> (RESPOND) whatever the kind of chat and the chat state, and the only event is
  the line of the log, so no collaborator is called.
\<close>

theorem shouldRespond_mention:
  assumes "msg_text message = Some t" and "includesStr t (''@'' @ botUsername C)"
  shows "shouldRespond E C message state w =
         (Inr True, w\<lparr>events := events w @ [Logged LInfo ''Bot mentioned'']\<rparr>)"
  using assms by (simp add: shouldRespond_def isMessageForMe_def io_defs)

theorem shouldRespond_mention_witness:
  "shouldRespond (answeringEnv (Inr [replyMemory ''IGNORE''])) exampleClient
     (groupMessage (Some ''@agentbot what's up'') None) (JObj []) trackedWorld =
   (Inr True, trackedWorld\<lparr>events := [Logged LInfo ''Bot mentioned'']\<rparr>)"
  using shouldRespond_mention [of "groupMessage (Some ''@agentbot what's up'') None"
      "''@agentbot what's up''" exampleClient "answeringEnv (Inr [replyMemory ''IGNORE''])"
      "JObj []" trackedWorld]
  by (simp add: groupMessage_def exampleClient_def trackedWorld_def)

lemma numToString_chat: "numToString (- 1001) = ''-1001''"
  by (simp add: numToString_def natToString.simps hexDigit_def)

lemma decisionOf_RESPOND: "decisionOf [replyMemory ''RESPOND''] = ''RESPOND''"
  by (simp add: decisionOf_def replyMemory_def toUpperCase_def trim_def isSpace_def isLowerAZ_def)

lemma example_context:
  "composeContext E (JObj [(''agentName'', JStr ''Eliza'')]) ''{{agentName}}: RESPOND or IGNORE?''
     (JObj []) Map.empty w = (Inr ''Eliza: RESPOND or IGNORE?'', w)"
  by (simp add: composeContext_def scanTemplate.simps matchPlaceholder_def replacePlaceholder_def
      trim_def isSpace_def getProp_def formatValue_def defaultFormat_def bind_def ret_def)

text \<open>What \<open>generateShouldRespond\<close> does, by the answers of the three calls.\<close>

lemma generateShouldRespond_try_run:
  assumes mem: "mem = promptMemory E a ctxt (now E (events w))"
  shows "generateShouldRespond_try E a ctxt w =
    (case createMemoryR E (events w) mem of
       Some e \<Rightarrow> (Inl e, w\<lparr>events := events w @ [CreateMemory mem]\<rparr>)
     | None \<Rightarrow>
        (case composeStateR E (events w @ [CreateMemory mem]) mem of
           Inl e \<Rightarrow> (Inl e, w\<lparr>events := events w @ [CreateMemory mem, ComposeState mem]\<rparr>)
         | Inr st \<Rightarrow>
            (case searchMemoriesByEmbeddingR E (events w @ [CreateMemory mem, ComposeState mem])
                    (memory_embedding mem) (searchOptsFor (memory_roomId mem)) of
               Inl e \<Rightarrow>
                 (Inl e, w\<lparr>events := events w @ [CreateMemory mem, ComposeState mem,
                    SearchMemoriesByEmbedding (memory_embedding mem) (searchOptsFor (memory_roomId mem))]\<rparr>)
             | Inr response \<Rightarrow>
                 (if decisionOf response \<noteq> ''RESPOND'' \<and> decisionOf response \<noteq> ''IGNORE''
                  then (Inr ''IGNORE'',
                        w\<lparr>events := events w @ [CreateMemory mem, ComposeState mem,
                          SearchMemoriesByEmbedding (memory_embedding mem) (searchOptsFor (memory_roomId mem)),
                          Logged LWarn (''Invalid response from model: '' @ decisionOf response @
                                        ''. Defaulting to IGNORE'')]\<rparr>)
                  else (Inr (decisionOf response),
                        w\<lparr>events := events w @ [CreateMemory mem, ComposeState mem,
                          SearchMemoriesByEmbedding (memory_embedding mem) (searchOptsFor (memory_roomId mem)),
                          Logged LDebug (''Should respond decision: '' @ decisionOf response)]\<rparr>)))))"
  unfolding mem
  by (simp add: generateShouldRespond_try_def getNow_def createMemory_def composeState_def
      searchMemoriesByEmbedding_def io_defs Let_def split: option.splits sum.splits)

lemma generateShouldRespond_try_value:
  "generateShouldRespond_try E a ctxt w = (Inr d, w') \<Longrightarrow> d = ''RESPOND'' \<or> d = ''IGNORE''"
  unfolding generateShouldRespond_try_run [OF refl]
  by (auto split: option.splits sum.splits if_splits)

lemma generateShouldRespond_catch:
  "generateShouldRespond E a ctxt w =
     (case generateShouldRespond_try E a ctxt w of
        (Inl e, w1) \<Rightarrow>
          (Inr ''IGNORE'',
           w1\<lparr>events := events w1 @ [Logged LError ''Error generating should-respond decision:'']\<rparr>)
      | (Inr d, w1) \<Rightarrow> (Inr d, w1))"
  by (simp add: generateShouldRespond_def io_defs split: prod.splits sum.splits)

text \<open>
  C2. \<open>generateShouldRespond\<close> never throws and returns RESPOND or IGNORE. When the
  body of its \<open>try\<close> block throws, it logs an error and returns IGNORE; that is so
  when \<open>createMemory\<close>, \<open>composeState\<close> or the search throws. In \<open>_shouldRespond\<close>,
  under rule 4, the decision is then \<open>false\<close> (IGNORE).
\<close>

theorem generateShouldRespond_failsafe:
  "(\<exists>d w'. generateShouldRespond E a ctxt w = (Inr d, w') \<and> (d = ''RESPOND'' \<or> d = ''IGNORE'')) \<and>
   (\<forall>e w1. generateShouldRespond_try E a ctxt w = (Inl e, w1) \<longrightarrow>
      generateShouldRespond E a ctxt w =
        (Inr ''IGNORE'',
         w1\<lparr>events := events w1 @ [Logged LError ''Error generating should-respond decision:'']\<rparr>)) \<and>
   (\<forall>e. createMemoryR E (events w) (promptMemory E a ctxt (now E (events w))) = Some e \<longrightarrow>
      fst (generateShouldRespond E a ctxt w) = Inr ''IGNORE'') \<and>
   (\<forall>e. createMemoryR E (events w) (promptMemory E a ctxt (now E (events w))) = None \<and>
        composeStateR E (events w @ [CreateMemory (promptMemory E a ctxt (now E (events w)))])
          (promptMemory E a ctxt (now E (events w))) = Inl e \<longrightarrow>
      fst (generateShouldRespond E a ctxt w) = Inr ''IGNORE'') \<and>
   (\<forall>e st. createMemoryR E (events w) (promptMemory E a ctxt (now E (events w))) = None \<and>
        composeStateR E (events w @ [CreateMemory (promptMemory E a ctxt (now E (events w)))])
          (promptMemory E a ctxt (now E (events w))) = Inr st \<and>
        searchMemoriesByEmbeddingR E
          (events w @ [CreateMemory (promptMemory E a ctxt (now E (events w))),
                       ComposeState (promptMemory E a ctxt (now E (events w)))])
          (memory_embedding (promptMemory E a ctxt (now E (events w))))
          (searchOptsFor (memory_roomId (promptMemory E a ctxt (now E (events w))))) = Inl e \<longrightarrow>
      fst (generateShouldRespond E a ctxt w) = Inr ''IGNORE'') \<and>
   (\<forall>message t C state w0 e w1.
      msg_text message = Some t \<and> \<not> includesStr t (''@'' @ botUsername C) \<and>
      chat_type (chat message) \<noteq> ''private'' \<and>
      interestChats w (numToString (chat_id (chat message))) = None \<and> t \<noteq> [] \<and>
      composeContext E state (shouldRespondTemplateOf E C (events w)) (JObj []) Map.empty w =
        (Inr ctxt, w0) \<and>
      generateShouldRespond_try E (agentId C) ctxt w0 = (Inl e, w1) \<longrightarrow>
      fst (shouldRespond E C message state w) = Inr False)"
proof -
  let ?mem = "promptMemory E a ctxt (now E (events w))"
  have total: "\<exists>d w'. generateShouldRespond E a ctxt w = (Inr d, w') \<and>
      (d = ''RESPOND'' \<or> d = ''IGNORE'')"
  proof (cases "generateShouldRespond_try E a ctxt w")
    case (Pair r w1)
    show ?thesis
    proof (cases r)
      case (Inl e)
      with Pair show ?thesis by (simp add: generateShouldRespond_catch)
    next
      case (Inr d)
      with Pair generateShouldRespond_try_value [of E a ctxt w d w1] show ?thesis
        by (simp add: generateShouldRespond_catch)
    qed
  qed
  have caught: "generateShouldRespond E a ctxt w =
        (Inr ''IGNORE'',
         w1\<lparr>events := events w1 @ [Logged LError ''Error generating should-respond decision:'']\<rparr>)"
    if "generateShouldRespond_try E a ctxt w = (Inl e, w1)" for e w1
    using that by (simp add: generateShouldRespond_catch)
  have c1: "fst (generateShouldRespond E a ctxt w) = Inr ''IGNORE''"
    if "createMemoryR E (events w) ?mem = Some e" for e
    using that by (simp add: generateShouldRespond_catch generateShouldRespond_try_run [OF refl])
  have c2: "fst (generateShouldRespond E a ctxt w) = Inr ''IGNORE''"
    if "createMemoryR E (events w) ?mem = None"
      "composeStateR E (events w @ [CreateMemory ?mem]) ?mem = Inl e" for e
    using that by (simp add: generateShouldRespond_catch generateShouldRespond_try_run [OF refl])
  have c3: "fst (generateShouldRespond E a ctxt w) = Inr ''IGNORE''"
    if "createMemoryR E (events w) ?mem = None"
      "composeStateR E (events w @ [CreateMemory ?mem]) ?mem = Inr st"
      "searchMemoriesByEmbeddingR E (events w @ [CreateMemory ?mem, ComposeState ?mem])
          (memory_embedding ?mem) (searchOptsFor (memory_roomId ?mem)) = Inl e" for e st
    using that by (simp add: generateShouldRespond_catch generateShouldRespond_try_run [OF refl])
  have dec: "fst (shouldRespond E C message state w) = Inr False"
    if "msg_text message = Some t" "\<not> includesStr t (''@'' @ botUsername C)"
      "chat_type (chat message) \<noteq> ''private''"
      "interestChats w (numToString (chat_id (chat message))) = None" "t \<noteq> []"
      "composeContext E state (shouldRespondTemplateOf E C (events w)) (JObj []) Map.empty w =
        (Inr ctxt, w0)"
      "generateShouldRespond_try E (agentId C) ctxt w0 = (Inl e, w1)"
    for message t C state w0 e w1
    using that
    by (simp add: shouldRespond_def isMessageForMe_def messageTextOf_def
        shouldRespondTemplateOf_def Let_def bind_def ret_def generateShouldRespond_catch)
  show ?thesis using total caught c1 c2 c3 dec by blast
qed

lemma decisionOf_text:
  "decisionOf [replyMemory t] = (if toUpperCase (trim t) \<noteq> [] then toUpperCase (trim t) else ''IGNORE'')"
  by (simp add: decisionOf_def replyMemory_def)

theorem generateShouldRespond_failsafe_witness:
  "fst (generateShouldRespond (answeringEnv (Inl (Thrown ''search failed''))) ''agent'' ''context''
          emptyWorld) = Inr ''IGNORE'' \<and>
   fst (shouldRespond (answeringEnv (Inl (Thrown ''search failed''))) exampleClient
          (groupMessage (Some ''hello everyone'') None) (JObj [(''agentName'', JStr ''Eliza'')])
          emptyWorld) = Inr False"
proof -
  let ?E = "answeringEnv (Inl (Thrown ''search failed''))"
  let ?m = "groupMessage (Some ''hello everyone'') None"
  let ?st = "JObj [(''agentName'', JStr ''Eliza'')]"
  have 1: "fst (generateShouldRespond ?E ''agent'' ''context'' emptyWorld) = Inr ''IGNORE''"
    by (rule generateShouldRespond_failsafe [THEN conjunct2, THEN conjunct2, THEN conjunct2,
          THEN conjunct2, THEN conjunct1, rule_format])
      (simp add: answeringEnv_def)
  have t: "shouldRespondTemplateOf ?E exampleClient h = ''{{agentName}}: RESPOND or IGNORE?''" for h
    by (simp add: shouldRespondTemplateOf_def exampleClient_def orElse_def)
  let ?mem = "promptMemory ?E ''agent'' ''Eliza: RESPOND or IGNORE?'' 1700000000000"
  let ?w1 = "emptyWorld\<lparr>events := [CreateMemory ?mem, ComposeState ?mem,
      SearchMemoriesByEmbedding (memory_embedding ?mem) (searchOptsFor (memory_roomId ?mem))]\<rparr>"
  have tr: "generateShouldRespond_try ?E ''agent'' ''Eliza: RESPOND or IGNORE?'' emptyWorld =
        (Inl (Thrown ''search failed''), ?w1)"
    by (simp add: generateShouldRespond_try_run [OF refl] answeringEnv_def emptyWorld_def)
  have cc: "composeContext ?E ?st (shouldRespondTemplateOf ?E exampleClient (events emptyWorld))
              (JObj []) Map.empty emptyWorld = (Inr ''Eliza: RESPOND or IGNORE?'', emptyWorld)"
    unfolding t by (rule example_context)
  have m: "msg_text ?m = Some ''hello everyone''"
    "\<not> includesStr ''hello everyone'' (''@'' @ botUsername exampleClient)"
    "chat_type (chat ?m) \<noteq> ''private''"
    "interestChats emptyWorld (numToString (chat_id (chat ?m))) = None"
    "''hello everyone'' \<noteq> []"
    "agentId exampleClient = ''agent''"
    by (simp_all add: groupMessage_def exampleClient_def emptyWorld_def)
  have 2: "fst (shouldRespond ?E exampleClient ?m ?st emptyWorld) = Inr False"
    using generateShouldRespond_failsafe [THEN conjunct2, THEN conjunct2, THEN conjunct2,
          THEN conjunct2, THEN conjunct2, rule_format,
          where message = ?m and t = "''hello everyone''" and C = exampleClient
            and w = emptyWorld and E = ?E and state = ?st
            and ctxt = "''Eliza: RESPOND or IGNORE?''" and ?w0.0 = emptyWorld
            and e = "Thrown ''search failed''" and ?w1.0 = ?w1]
      m cc tr
    by simp
  from 1 2 show ?thesis by simp
qed


text \<open>
  C6, as the code has it. When the three calls return and the search gives \<open>response\<close>,
  the decision read from it is the trimmed, uppercased text of the first memory, or
  IGNORE when that text is empty or a link of the chain is missing.
  \<^item> A decision other than RESPOND and IGNORE (so a text that is not empty after
    trimming) gives IGNORE, with a warning that names it.
  \<^item> A decision RESPOND or IGNORE is returned, with a debug line and no warning; that
    includes the empty and the missing text.
\<close>

theorem generateShouldRespond_coercion:
  assumes mem: "mem = promptMemory E a ctxt (now E (events w))"
    and cm: "createMemoryR E (events w) mem = None"
    and cs: "composeStateR E (events w @ [CreateMemory mem]) mem = Inr st"
    and se: "searchMemoriesByEmbeddingR E (events w @ [CreateMemory mem, ComposeState mem])
               (memory_embedding mem) (searchOptsFor (memory_roomId mem)) = Inr response"
  shows
    "(decisionOf response \<noteq> ''RESPOND'' \<and> decisionOf response \<noteq> ''IGNORE'' \<longrightarrow>
        generateShouldRespond E a ctxt w =
          (Inr ''IGNORE'',
           w\<lparr>events := events w @ [CreateMemory mem, ComposeState mem,
              SearchMemoriesByEmbedding (memory_embedding mem) (searchOptsFor (memory_roomId mem)),
              Logged LWarn (''Invalid response from model: '' @ decisionOf response @
                            ''. Defaulting to IGNORE'')]\<rparr>)) \<and>
     (decisionOf response = ''RESPOND'' \<or> decisionOf response = ''IGNORE'' \<longrightarrow>
        generateShouldRespond E a ctxt w =
          (Inr (decisionOf response),
           w\<lparr>events := events w @ [CreateMemory mem, ComposeState mem,
              SearchMemoriesByEmbedding (memory_embedding mem) (searchOptsFor (memory_roomId mem)),
              Logged LDebug (''Should respond decision: '' @ decisionOf response)]\<rparr>)) \<and>
     (\<forall>r rs c t. response = r # rs \<and> memory_content r = Some c \<and> content_text c = Some t \<longrightarrow>
        decisionOf response =
          (if toUpperCase (trim t) \<noteq> [] then toUpperCase (trim t) else ''IGNORE'')) \<and>
     ((response = [] \<or>
       (\<exists>r rs. response = r # rs \<and>
          (memory_content r = None \<or> (\<exists>c. memory_content r = Some c \<and> content_text c = None)))) \<longrightarrow>
        decisionOf response = ''IGNORE'')"
proof -
  have run: "generateShouldRespond E a ctxt w =
      (if decisionOf response \<noteq> ''RESPOND'' \<and> decisionOf response \<noteq> ''IGNORE''
       then (Inr ''IGNORE'',
             w\<lparr>events := events w @ [CreateMemory mem, ComposeState mem,
               SearchMemoriesByEmbedding (memory_embedding mem) (searchOptsFor (memory_roomId mem)),
               Logged LWarn (''Invalid response from model: '' @ decisionOf response @
                             ''. Defaulting to IGNORE'')]\<rparr>)
       else (Inr (decisionOf response),
             w\<lparr>events := events w @ [CreateMemory mem, ComposeState mem,
               SearchMemoriesByEmbedding (memory_embedding mem) (searchOptsFor (memory_roomId mem)),
               Logged LDebug (''Should respond decision: '' @ decisionOf response)]\<rparr>))"
    using cm cs se
    by (simp add: generateShouldRespond_catch generateShouldRespond_try_run [OF mem])
  have d1: "decisionOf response =
      (if toUpperCase (trim t) \<noteq> [] then toUpperCase (trim t) else ''IGNORE'')"
    if "response = r # rs" "memory_content r = Some c" "content_text c = Some t" for r rs c t
    using that by (simp add: decisionOf_def)
  have d2: "decisionOf response = ''IGNORE''"
    if "response = [] \<or>
       (\<exists>r rs. response = r # rs \<and>
          (memory_content r = None \<or> (\<exists>c. memory_content r = Some c \<and> content_text c = None)))"
    using that by (auto simp: decisionOf_def)
  show ?thesis using run d1 d2 by auto
qed

lemma decisionOf_stop: "decisionOf [replyMemory '' stop ''] = ''STOP''"
  by (simp add: decisionOf_text toUpperCase_def trim_def isSpace_def isLowerAZ_def)

lemma decisionOf_blank: "decisionOf [replyMemory ''  ''] = ''IGNORE''"
  by (simp add: decisionOf_text toUpperCase_def trim_def isSpace_def)

theorem generateShouldRespond_coercion_witness:
  "fst (generateShouldRespond (answeringEnv (Inr [replyMemory '' stop ''])) ''agent'' ''context''
          emptyWorld) = Inr ''IGNORE'' \<and>
   warnings (snd (generateShouldRespond (answeringEnv (Inr [replyMemory '' stop ''])) ''agent''
          ''context'' emptyWorld)) = [''Invalid response from model: STOP. Defaulting to IGNORE'']"
proof -
  let ?E = "answeringEnv (Inr [replyMemory '' stop ''])"
  have "decisionOf [replyMemory '' stop ''] \<noteq> ''RESPOND'' \<and>
        decisionOf [replyMemory '' stop ''] \<noteq> ''IGNORE''"
    by (simp add: decisionOf_stop)
  with generateShouldRespond_coercion [OF refl, of ?E emptyWorld "''agent''" "''context''"
      "JObj [(''agentName'', JStr ''Eliza'')]" "[replyMemory '' stop '']", THEN conjunct1]
  show ?thesis
    by (simp add: answeringEnv_def emptyWorld_def warnings_def decisionOf_stop)
qed

text \<open>
  The claim as the specification states it fails on an answer of white space: the
  trimmed, uppercased output is the empty string, which is neither RESPOND nor IGNORE,
  and the result is IGNORE without a warning.
\<close>

theorem generateShouldRespond_blank_counterexample:
  "toUpperCase (trim ''  '') \<noteq> ''RESPOND'' \<and> toUpperCase (trim ''  '') \<noteq> ''IGNORE'' \<and>
   fst (generateShouldRespond (answeringEnv (Inr [replyMemory ''  ''])) ''agent'' ''context''
          emptyWorld) = Inr ''IGNORE'' \<and>
   warnings (snd (generateShouldRespond (answeringEnv (Inr [replyMemory ''  ''])) ''agent''
          ''context'' emptyWorld)) = []"
  by (simp add: generateShouldRespond_catch generateShouldRespond_try_run [OF refl]
      answeringEnv_def emptyWorld_def warnings_def decisionOf_blank toUpperCase_def trim_def
      isSpace_def)

section \<open>Proofs: the dispatch pipeline\<close>

lemma bind_throw: "bind (throw e) f = throw e"
  by (simp add: bind_def throw_def)

lemma quiet_ret: "quiet (ret x)"
  by (simp add: quiet_def ret_def)

lemma quiet_throw: "quiet (throw e)"
  by (simp add: quiet_def throw_def)

lemma quiet_bind: "quiet m \<Longrightarrow> (\<And>x. quiet (f x)) \<Longrightarrow> quiet (bind m f)"
  unfolding quiet_def bind_def
proof
  fix w
  assume m: "\<forall>w. reactions (snd (m w)) = reactions w"
    and f: "\<And>x. \<forall>w. reactions (snd (f x w)) = reactions w"
  obtain r w1 where r: "m w = (r, w1)" by (cases "m w")
  with m have 1: "reactions w1 = reactions w" by (metis snd_conv)
  show "reactions (snd (case m w of (Inl e, w') \<Rightarrow> (Inl e, w') | (Inr x, w') \<Rightarrow> f x w')) =
        reactions w"
  proof (cases r)
    case (Inl e)
    with r 1 show ?thesis by simp
  next
    case (Inr x)
    with r 1 f [of x] show ?thesis by simp
  qed
qed

lemma quiet_tryCatch: "quiet m \<Longrightarrow> (\<And>e. quiet (h e)) \<Longrightarrow> quiet (tryCatch m h)"
  unfolding quiet_def tryCatch_def
proof
  fix w
  assume m: "\<forall>w. reactions (snd (m w)) = reactions w"
    and h: "\<And>e. \<forall>w. reactions (snd (h e w)) = reactions w"
  obtain r w1 where r: "m w = (r, w1)" by (cases "m w")
  with m have 1: "reactions w1 = reactions w" by (metis snd_conv)
  show "reactions (snd (case m w of (Inl e, w') \<Rightarrow> h e w' | (Inr x, w') \<Rightarrow> (Inr x, w'))) =
        reactions w"
  proof (cases r)
    case (Inl e)
    with r 1 h [of e] show ?thesis by simp
  next
    case (Inr x)
    with r 1 show ?thesis by simp
  qed
qed

lemma quiet_logger: "quiet (logger l msg)"
  by (simp add: quiet_def logger_def emit_def reactions_def)

lemma quiet_callExt: "\<not> isReaction ev \<Longrightarrow> quiet (callExt ev answer)"
  by (simp add: quiet_def callExt_def reactions_def split: sum.splits)

lemma quiet_track: "quiet (track E chatId sender messageText)"
  by (simp add: quiet_def track_def reactions_def Let_def)

lemma quiet_processImage: "quiet (processImage E message)"
  unfolding processImage_def imageUrlOf_def getFileLink_def describeImage_def
  by (intro quiet_tryCatch quiet_bind quiet_logger quiet_ret)
    (auto intro!: quiet_bind quiet_ret quiet_callExt split: option.splits list.splits prod.splits)

lemma shouldRespond_throws:
  "msg_text message = None \<Longrightarrow>
   shouldRespond E C message state =
     throw (TypeError ''Cannot read properties of undefined (reading 'includes')'')"
  by (simp add: shouldRespond_def isMessageForMe_def bind_throw)

lemma quiet_handleMessage_try:
  assumes "msg_text message = None"
  shows "quiet (handleMessage_try E C c message sender chatId messageText)"
  unfolding handleMessage_try_def Let_def ensureConnection_def createMemory_def composeState_def
    updateRecentMessageState_def shouldRespond_throws [OF assms] bind_throw
  by (intro quiet_bind quiet_callExt quiet_processImage) (auto intro!: quiet_bind quiet_callExt
      quiet_ret quiet_throw)

lemma safe_ret: "safe (ret x)"
  by (simp add: safe_def ret_def)

lemma safe_logger: "safe (logger l msg)"
  by (simp add: safe_def logger_def emit_def)

lemma safe_bind: "safe m \<Longrightarrow> (\<And>x. safe (f x)) \<Longrightarrow> safe (bind m f)"
  unfolding safe_def bind_def
proof
  fix w
  assume m: "\<forall>w. \<exists>x. fst (m w) = Inr x" and f: "\<And>x. \<forall>w. \<exists>y. fst (f x w) = Inr y"
  from m obtain x where "fst (m w) = Inr x" by blast
  then obtain w1 where "m w = (Inr x, w1)" by (cases "m w") auto
  with f [of x] show "\<exists>y. fst (case m w of (Inl e, w') \<Rightarrow> (Inl e, w') | (Inr x, w') \<Rightarrow> f x w') = Inr y"
    by simp
qed

lemma safe_tryCatch: "(\<And>e. safe (h e)) \<Longrightarrow> safe (tryCatch m h)"
  unfolding safe_def tryCatch_def
proof
  fix w
  assume h: "\<And>e. \<forall>w. \<exists>x. fst (h e w) = Inr x"
  obtain r w1 where r: "m w = (r, w1)" by (cases "m w")
  show "\<exists>x. fst (case m w of (Inl e, w') \<Rightarrow> h e w' | (Inr x, w') \<Rightarrow> (Inr x, w')) = Inr x"
  proof (cases r)
    case (Inl e)
    with r h [of e] show ?thesis by simp
  next
    case (Inr x)
    with r show ?thesis by simp
  qed
qed

lemma safe_track: "safe (track E chatId sender messageText)"
  by (simp add: safe_def track_def Let_def)

lemma safe_handleMessage: "safe (handleMessage E C c)"
  unfolding handleMessage_def Let_def
  by (auto intro!: safe_ret safe_bind safe_tryCatch safe_logger safe_track
      split: option.splits)

lemma quiet_handleMessage:
  assumes "\<forall>message. ctx_message c = Some message \<longrightarrow> msg_text message = None"
  shows "quiet (handleMessage E C c)"
  unfolding handleMessage_def Let_def using assms
  by (auto intro!: quiet_ret quiet_bind quiet_tryCatch quiet_logger quiet_track
      quiet_handleMessage_try split: option.splits)

lemma maintains_ret: "Q x \<Longrightarrow> maintains I (ret x) Q"
  by (simp add: maintains_def ret_def)

lemma maintains_throw: "maintains I (throw e) Q"
  by (simp add: maintains_def throw_def)

lemma maintains_bind:
  assumes "maintains I m Q" and "\<And>x. Q x \<Longrightarrow> maintains I (f x) R"
  shows "maintains I (bind m f) R"
  unfolding maintains_def
proof (intro allI impI)
  fix w
  assume i: "I w"
  obtain r w1 where r: "m w = (r, w1)" by (cases "m w")
  with assms(1) i have 1: "I w1" "\<forall>x. r = Inr x \<longrightarrow> Q x"
    unfolding maintains_def by (metis snd_conv, metis fst_conv)
  show "I (snd (bind m f w)) \<and> (\<forall>x. fst (bind m f w) = Inr x \<longrightarrow> R x)"
  proof (cases r)
    case (Inl e)
    with r 1 show ?thesis by (simp add: bind_def)
  next
    case (Inr x)
    with 1 have "Q x" by simp
    then have "maintains I (f x) R" by (rule assms(2))
    with 1(1) have "I (snd (f x w1)) \<and> (\<forall>y. fst (f x w1) = Inr y \<longrightarrow> R y)"
      unfolding maintains_def by blast
    with r Inr show ?thesis by (simp add: bind_def)
  qed
qed

lemma maintains_tryCatch:
  assumes "maintains I m Q" and "\<And>e. maintains I (h e) Q"
  shows "maintains I (tryCatch m h) Q"
  unfolding maintains_def
proof (intro allI impI)
  fix w
  assume i: "I w"
  obtain r w1 where r: "m w = (r, w1)" by (cases "m w")
  with assms(1) i have 1: "I w1" "\<forall>x. r = Inr x \<longrightarrow> Q x"
    unfolding maintains_def by (metis snd_conv, metis fst_conv)
  show "I (snd (tryCatch m h w)) \<and> (\<forall>x. fst (tryCatch m h w) = Inr x \<longrightarrow> Q x)"
  proof (cases r)
    case (Inl e)
    from assms(2) [of e] 1(1) have "I (snd (h e w1)) \<and> (\<forall>y. fst (h e w1) = Inr y \<longrightarrow> Q y)"
      unfolding maintains_def by blast
    with r Inl show ?thesis by (simp add: tryCatch_def)
  next
    case (Inr x)
    with r 1 show ?thesis by (simp add: tryCatch_def)
  qed
qed

lemma maintains_weaken: "maintains I m Q \<Longrightarrow> (\<And>x. Q x \<Longrightarrow> R x) \<Longrightarrow> maintains I m R"
  unfolding maintains_def by blast

lemma maintains_emit:
  "(\<And>w. I w \<Longrightarrow> I (w\<lparr>events := events w @ [ev]\<rparr>)) \<Longrightarrow> maintains I (emit ev) (\<lambda>_. True)"
  by (simp add: maintains_def emit_def)

lemma maintains_logger:
  "(\<And>w. I w \<Longrightarrow> I (w\<lparr>events := events w @ [Logged l msg]\<rparr>)) \<Longrightarrow>
   maintains I (logger l msg) (\<lambda>_. True)"
  unfolding logger_def by (rule maintains_emit)

lemma maintains_callExt:
  "(\<And>w. I w \<Longrightarrow> I (w\<lparr>events := events w @ [ev]\<rparr>)) \<Longrightarrow>
   maintains I (callExt ev answer) (\<lambda>_. True)"
  by (simp add: maintains_def callExt_def split: sum.splits)

lemma maintains_calls:
  assumes "\<And>ev w. \<not> isSearch ev \<Longrightarrow> evaluationOf ev \<noteq> [True] \<Longrightarrow> I w \<Longrightarrow>
             I (w\<lparr>events := events w @ [ev]\<rparr>)"
  shows "maintains I (ensureConnection E userId roomId userName screenName source) (\<lambda>_. True)"
    and "maintains I (createMemory E memory) (\<lambda>_. True)"
    and "maintains I (composeState E memory) (\<lambda>_. True)"
    and "maintains I (updateRecentMessageState E state) (\<lambda>_. True)"
    and "maintains I (evaluate E memory state False) (\<lambda>_. True)"
    and "maintains I (getFileLink E fileId) (\<lambda>_. True)"
    and "maintains I (describeImage E url) (\<lambda>_. True)"
    and "maintains I (logger l msg) (\<lambda>_. True)"
  unfolding ensureConnection_def createMemory_def composeState_def updateRecentMessageState_def
    evaluate_def getFileLink_def describeImage_def
  by (auto intro!: maintains_callExt maintains_logger assms)

lemma maintains_processImage:
  assumes "\<And>ev w. \<not> isSearch ev \<Longrightarrow> evaluationOf ev \<noteq> [True] \<Longrightarrow> I w \<Longrightarrow>
             I (w\<lparr>events := events w @ [ev]\<rparr>)"
  shows "maintains I (processImage E message) (\<lambda>_. True)"
proof -
  note c = maintains_calls [of I, OF assms]
  have url: "maintains I (imageUrlOf E message) (\<lambda>_. True)"
    unfolding imageUrlOf_def
    by (auto intro!: maintains_bind [where Q = "\<lambda>_. True"] maintains_ret c
        split: option.splits list.splits)
  have rest: "maintains I
      (case imageUrl of
         Some url \<Rightarrow>
           if url \<noteq> [] \<and> hasImageService E
           then bind (describeImage E url) (\<lambda>(title, description).
                  ret (Some (''[Image: '' @ title @ ''\<newline>'' @ description @ '']'')))
           else ret None
       | None \<Rightarrow> ret None) (\<lambda>_. True)" for imageUrl
    by (auto intro!: maintains_bind [where Q = "\<lambda>_. True"] maintains_ret c
        split: option.splits prod.splits)
  show ?thesis
    unfolding processImage_def
    by (intro maintains_tryCatch maintains_bind [where Q = "\<lambda>_. True"] url rest c maintains_ret)
      simp_all
qed

lemma maintains_handleMessage_try:
  assumes harmless: "\<And>ev w. \<not> isSearch ev \<Longrightarrow> evaluationOf ev \<noteq> [True] \<Longrightarrow> I w \<Longrightarrow>
             I (w\<lparr>events := events w @ [ev]\<rparr>)"
    and decide: "\<And>state. maintains I (shouldRespond E C message state) (\<lambda>respond. \<not> respond)"
  shows "maintains I (handleMessage_try E C c message sender chatId messageText) (\<lambda>_. True)"
proof -
  note c = maintains_calls [of I, OF harmless]
  have tail: "maintains I
      (bind (shouldRespond E C message state) (\<lambda>respond.
         if respond then f respond else evaluate E memory state respond)) (\<lambda>_. True)"
    for state memory and f :: "bool \<Rightarrow> unit io"
  proof (rule maintains_bind [OF decide])
    fix respond :: bool
    assume "\<not> respond"
    then show "maintains I (if respond then f respond else evaluate E memory state respond) (\<lambda>_. True)"
      by (simp add: c)
  qed
  show ?thesis
    unfolding handleMessage_try_def Let_def
    by (intro maintains_bind [where Q = "\<lambda>_. True"] c maintains_processImage harmless)
      (auto intro!: maintains_ret maintains_bind [where Q = "\<lambda>_. True"] c tail)
qed

lemma natToString_nonempty: "natToString n \<noteq> []"
  by (subst natToString.simps) simp

lemma numToString_nonempty: "numToString i \<noteq> []"
  by (simp add: numToString_def natToString_nonempty)

lemma bind_run: "m w = (Inr x, w') \<Longrightarrow> bind m f w = f x w'"
  by (simp add: bind_def)

lemma track_run:
  "track E chatId sender messageText w = (Inr (), snd (track E chatId sender messageText w))"
  "events (snd (track E chatId sender messageText w)) = events w"
  by (simp_all add: track_def Let_def)

lemma tracking_run:
  "(if chatId \<noteq> [] \<and> messageText \<noteq> [] then track E chatId sender messageText else ret ()) w =
   (Inr (), snd ((if chatId \<noteq> [] \<and> messageText \<noteq> [] then track E chatId sender messageText else ret ()) w))"
  "events (snd ((if chatId \<noteq> [] \<and> messageText \<noteq> [] then track E chatId sender messageText else ret ()) w)) =
   events w"
  by (simp_all add: track_def Let_def ret_def)

text \<open>
  The run of \<open>handleMessage\<close> up to the decision, when the collaborators answer: the
  tracker is updated, the connection ensured, the image processed, and the memory of the
  message created, before the state is composed and updated.
\<close>

lemma handleMessage_to_decision:
  assumes m: "ctx_message c = Some message" and s: "ctx_from c = Some sender"
    and f1: "\<not> (shouldIgnoreBotMessages (character C) \<and> is_bot sender)"
    and f2: "\<not> (shouldIgnoreDirectMessages (character C) \<and> chat_type (chat message) = ''private'')"
    and k: "chatId = numToString (chat_id (chat message))"
    and w0: "w0 = snd ((if chatId \<noteq> [] \<and> messageTextOf message \<noteq> []
                        then track E chatId sender (messageTextOf message) else ret ()) w)"
    and ec: "ensureConnectionR E (events w) = None"
    and pi: "processImage E message
               (w0\<lparr>events := events w @
                  [EnsureConnection (stringToUuid (numToString (from_id sender)))
                     (stringToUuid (chatId @ ''-'' @ agentId C))
                     (orElse (username sender) (orElse (Some (first_name sender)) ''Unknown User''))
                     (orElse (username sender) (orElse (Some (first_name sender)) ''Unknown User''))
                     ''telegram'']\<rparr>) = (Inr imageInfo, w1)"
    and ft: "fullTextOf (messageTextOf message) imageInfo \<noteq> []"
    and mem: "mem = inboundMemory E C message sender chatId (fullTextOf (messageTextOf message) imageInfo)"
    and cm: "createMemoryR E (events w1) mem = None"
    and cs: "composeStateR E (events w1 @ [CreateMemory mem]) mem = Inr st0"
    and up: "updateRecentMessageStateR E (events w1 @ [CreateMemory mem, ComposeState mem]) st0 = Inr st"
    and w2: "w2 = w1\<lparr>events := events w1 @ [CreateMemory mem, ComposeState mem,
                                              UpdateRecentMessageState st0]\<rparr>"
  shows "(\<forall>e w3. shouldRespond E C message st w2 = (Inl e, w3) \<longrightarrow>
            handleMessage E C c w =
              (Inr (), w3\<lparr>events := events w3 @ [Logged LError ''Error handling message:'',
                                                  Logged LError ''Error sending message:'']\<rparr>)) \<and>
         (\<forall>w3. shouldRespond E C message st w2 = (Inr False, w3) \<longrightarrow>
            handleMessage E C c w =
              tryCatch (evaluate E mem st False)
                (\<lambda>error. bind (logger LError ''Error handling message:'')
                           (\<lambda>_. logger LError ''Error sending message:'')) w3)"
proof -
  let ?mt = "messageTextOf message"
  let ?h = "\<lambda>error. bind (logger LError ''Error handling message:'')
                           (\<lambda>_. logger LError ''Error sending message:'')"
  let ?tr = "if chatId \<noteq> [] \<and> ?mt \<noteq> [] then track E chatId sender ?mt else ret ()"
  have t: "?tr w = (Inr (), w0)" "events w0 = events w"
    unfolding w0 by (rule tracking_run)+
  have "handleMessage E C c =
        bind ?tr (\<lambda>_. tryCatch (handleMessage_try E C c message sender chatId ?mt) ?h)"
  proof -
    from f1 have g1: "(shouldIgnoreBotMessages (character C) \<and> is_bot sender) = False" by simp
    from f2 have g2: "(shouldIgnoreDirectMessages (character C) \<and>
                       chat_type (chat message) = ''private'') = False" by simp
    show ?thesis unfolding handleMessage_def Let_def k by (simp only: m s option.case g1 g2 if_False)
  qed
  then have hm: "handleMessage E C c w =
        tryCatch (handleMessage_try E C c message sender chatId ?mt) ?h w0"
    using t(1) by (simp add: bind_def [of ?tr])
  let ?ev = "EnsureConnection (stringToUuid (numToString (from_id sender)))
                     (stringToUuid (chatId @ ''-'' @ agentId C))
                     (orElse (username sender) (orElse (Some (first_name sender)) ''Unknown User''))
                     (orElse (username sender) (orElse (Some (first_name sender)) ''Unknown User''))
                     ''telegram''"
  have e1: "ensureConnection E (stringToUuid (numToString (from_id sender)))
              (stringToUuid (chatId @ ''-'' @ agentId C))
              (orElse (username sender) (orElse (Some (first_name sender)) ''Unknown User''))
              (orElse (username sender) (orElse (Some (first_name sender)) ''Unknown User''))
              ''telegram'' w0 = (Inr (), w0\<lparr>events := events w @ [?ev]\<rparr>)"
    using ec t(2) by (simp add: ensureConnection_def callExt_def orThrow_def)
  have e3: "createMemory E mem w1 = (Inr (), w1\<lparr>events := events w1 @ [CreateMemory mem]\<rparr>)"
    using cm by (simp add: createMemory_def callExt_def orThrow_def)
  have e4: "composeState E mem (w1\<lparr>events := events w1 @ [CreateMemory mem]\<rparr>) =
            (Inr st0, w1\<lparr>events := events w1 @ [CreateMemory mem, ComposeState mem]\<rparr>)"
    using cs by (simp add: composeState_def callExt_def)
  have e5: "updateRecentMessageState E st0 (w1\<lparr>events := events w1 @ [CreateMemory mem, ComposeState mem]\<rparr>) =
            (Inr st, w2)"
    using up unfolding w2 by (simp add: updateRecentMessageState_def callExt_def)
  have b1: "bind (ensureConnection E (stringToUuid (numToString (from_id sender)))
              (stringToUuid (chatId @ ''-'' @ agentId C))
              (orElse (username sender) (orElse (Some (first_name sender)) ''Unknown User''))
              (orElse (username sender) (orElse (Some (first_name sender)) ''Unknown User''))
              ''telegram'') f w0 = f () (w0\<lparr>events := events w @ [?ev]\<rparr>)" for f :: "unit \<Rightarrow> unit io"
    using e1 by (rule bind_run)
  have b2: "bind (processImage E message) f (w0\<lparr>events := events w @ [?ev]\<rparr>) = f imageInfo w1"
    for f :: "string option \<Rightarrow> unit io"
    using pi by (rule bind_run)
  have b3: "bind (createMemory E mem) f w1 = f () (w1\<lparr>events := events w1 @ [CreateMemory mem]\<rparr>)"
    for f :: "unit \<Rightarrow> unit io"
    using e3 by (rule bind_run)
  have b4: "bind (composeState E mem) f (w1\<lparr>events := events w1 @ [CreateMemory mem]\<rparr>) =
            f st0 (w1\<lparr>events := events w1 @ [CreateMemory mem, ComposeState mem]\<rparr>)"
    for f :: "jsval \<Rightarrow> unit io"
    using e4 by (rule bind_run)
  have b5: "bind (updateRecentMessageState E st0) f
              (w1\<lparr>events := events w1 @ [CreateMemory mem, ComposeState mem]\<rparr>) = f st w2"
    for f :: "jsval \<Rightarrow> unit io"
    using e5 by (rule bind_run)
  have tr: "handleMessage_try E C c message sender chatId ?mt w0 =
            bind (shouldRespond E C message st) K w2" if
    "K = (\<lambda>respond.
        if respond then
          bind (composeContext E st
                  (orElse (tpl_telegramMessageHandlerTemplate (character C))
                     (orElse (tpl_messageHandlerTemplate (character C))
                        telegramMessageHandlerTemplate))
                  (JObj []) Map.empty) (\<lambda>context.
          bind (generateResponse E C mem context) (\<lambda>responseContent.
          case responseContent of
            None \<Rightarrow> ret ()
          | Some rc \<Rightarrow>
              if content_text rc = None \<or> content_text rc = Some [] then ret ()
              else
                bind (callback E C c message (stringToUuid (chatId @ ''-'' @ agentId C))
                        (stringToUuid (numToString (message_id message) @ ''-'' @ agentId C)) rc)
                  (\<lambda>responseMessages.
                bind (updateRecentMessageState E st) (\<lambda>state'.
                bind (processActions E mem responseMessages state') (\<lambda>_.
                evaluate E mem state' respond)))))
        else evaluate E mem st respond)" for K
    unfolding handleMessage_try_def Let_def that
    by (simp only: b1 b2 ft if_False mem [symmetric] b3 b4 b5)
  have a: "handleMessage E C c w =
              (Inr (), w3\<lparr>events := events w3 @ [Logged LError ''Error handling message:'',
                                                  Logged LError ''Error sending message:'']\<rparr>)"
    if "shouldRespond E C message st w2 = (Inl e, w3)" for e w3
    unfolding hm tryCatch_def tr [OF refl] using that
    by (simp add: bind_def logger_def emit_def)
  have b: "handleMessage E C c w = tryCatch (evaluate E mem st False) ?h w3"
    if "shouldRespond E C message st w2 = (Inr False, w3)" for w3
    unfolding hm tryCatch_def tr [OF refl] using that
    by (simp add: bind_def)
  from a b show ?thesis by blast
qed

lemma processImage_plain:
  "photo message = None \<Longrightarrow> document message = None \<Longrightarrow> processImage E message w = (Inr None, w)"
  by (simp add: processImage_def imageUrlOf_def tryCatch_def bind_def ret_def)

section \<open>Proofs: messages without a text\<close>

text \<open>
  C10. A message without a \<open>text\<close> (a photo or a document with a caption only):
  \<open>_isMessageForMe\<close> throws a \<open>TypeError\<close>, and so does \<open>_shouldRespond\<close>, before
  anything else and whatever the caption, the kind of chat and the chat state; nothing
  is added to the trace. \<open>handleMessage\<close> does not throw and adds no reaction to the
  trace: nothing is sent, processed or evaluated. When the collaborators answer on the
  way to the decision and there is a content (a caption or the description of an image),
  the run gets to \<open>_shouldRespond\<close> and the \<open>catch\<close> of \<open>handleMessage\<close> takes the
  exception: after the connection, the image, the memory, the state and its update, the
  trace ends with the two error lines of the \<open>catch\<close>.
\<close>

theorem shouldRespond_without_text:
  assumes "msg_text message = None"
  shows
    "isMessageForMe C message w =
       (Inl (TypeError ''Cannot read properties of undefined (reading 'includes')''), w) \<and>
     shouldRespond E C message state w =
       (Inl (TypeError ''Cannot read properties of undefined (reading 'includes')''), w) \<and>
     (\<forall>c. ctx_message c = Some message \<longrightarrow>
        fst (handleMessage E C c w) = Inr () \<and>
        reactions (snd (handleMessage E C c w)) = reactions w) \<and>
     (\<forall>c sender imageInfo w1 st0 st.
        ctx_message c = Some message \<and> ctx_from c = Some sender \<and>
        \<not> (shouldIgnoreBotMessages (character C) \<and> is_bot sender) \<and>
        \<not> (shouldIgnoreDirectMessages (character C) \<and> chat_type (chat message) = ''private'') \<and>
        ensureConnectionR E (events w) = None \<and>
        processImage E message
          ((snd ((if numToString (chat_id (chat message)) \<noteq> [] \<and> messageTextOf message \<noteq> []
                  then track E (numToString (chat_id (chat message))) sender (messageTextOf message)
                  else ret ()) w))
             \<lparr>events := events w @
                [EnsureConnection (stringToUuid (numToString (from_id sender)))
                   (stringToUuid (numToString (chat_id (chat message)) @ ''-'' @ agentId C))
                   (orElse (username sender) (orElse (Some (first_name sender)) ''Unknown User''))
                   (orElse (username sender) (orElse (Some (first_name sender)) ''Unknown User''))
                   ''telegram'']\<rparr>) = (Inr imageInfo, w1) \<and>
        fullTextOf (messageTextOf message) imageInfo \<noteq> [] \<and>
        createMemoryR E (events w1)
          (inboundMemory E C message sender (numToString (chat_id (chat message)))
             (fullTextOf (messageTextOf message) imageInfo)) = None \<and>
        composeStateR E
          (events w1 @
             [CreateMemory (inboundMemory E C message sender (numToString (chat_id (chat message)))
                (fullTextOf (messageTextOf message) imageInfo))])
          (inboundMemory E C message sender (numToString (chat_id (chat message)))
             (fullTextOf (messageTextOf message) imageInfo)) = Inr st0 \<and>
        updateRecentMessageStateR E
          (events w1 @
             [CreateMemory (inboundMemory E C message sender (numToString (chat_id (chat message)))
                (fullTextOf (messageTextOf message) imageInfo)),
              ComposeState (inboundMemory E C message sender (numToString (chat_id (chat message)))
                (fullTextOf (messageTextOf message) imageInfo))]) st0 = Inr st \<longrightarrow>
        handleMessage E C c w =
          (Inr (),
           w1\<lparr>events := events w1 @
                [CreateMemory (inboundMemory E C message sender (numToString (chat_id (chat message)))
                   (fullTextOf (messageTextOf message) imageInfo)),
                 ComposeState (inboundMemory E C message sender (numToString (chat_id (chat message)))
                   (fullTextOf (messageTextOf message) imageInfo)),
                 UpdateRecentMessageState st0,
                 Logged LError ''Error handling message:'',
                 Logged LError ''Error sending message:'']\<rparr>))"
proof -
  let ?k = "numToString (chat_id (chat message))"
  have 1: "isMessageForMe C message w =
       (Inl (TypeError ''Cannot read properties of undefined (reading 'includes')''), w)"
    using assms by (simp add: isMessageForMe_def throw_def)
  have 2: "shouldRespond E C message state w =
       (Inl (TypeError ''Cannot read properties of undefined (reading 'includes')''), w)" for state w
    using assms by (simp add: shouldRespond_throws throw_def)
  have 3: "fst (handleMessage E C c w) = Inr () \<and>
        reactions (snd (handleMessage E C c w)) = reactions w"
    if "ctx_message c = Some message" for c
  proof -
    from that assms have "\<forall>m. ctx_message c = Some m \<longrightarrow> msg_text m = None" by simp
    then have "quiet (handleMessage E C c)" by (rule quiet_handleMessage)
    moreover have "safe (handleMessage E C c)" by (rule safe_handleMessage)
    ultimately show ?thesis by (simp add: quiet_def safe_def)
  qed
  have 4: "handleMessage E C c w =
          (Inr (),
           w1\<lparr>events := events w1 @
                [CreateMemory (inboundMemory E C message sender ?k
                   (fullTextOf (messageTextOf message) imageInfo)),
                 ComposeState (inboundMemory E C message sender ?k
                   (fullTextOf (messageTextOf message) imageInfo)),
                 UpdateRecentMessageState st0,
                 Logged LError ''Error handling message:'',
                 Logged LError ''Error sending message:'']\<rparr>)"
    if m: "ctx_message c = Some message" and s: "ctx_from c = Some sender"
      and f1: "\<not> (shouldIgnoreBotMessages (character C) \<and> is_bot sender)"
      and f2: "\<not> (shouldIgnoreDirectMessages (character C) \<and> chat_type (chat message) = ''private'')"
      and ec: "ensureConnectionR E (events w) = None"
      and pi: "processImage E message
          ((snd ((if ?k \<noteq> [] \<and> messageTextOf message \<noteq> []
                  then track E ?k sender (messageTextOf message) else ret ()) w))
             \<lparr>events := events w @
                [EnsureConnection (stringToUuid (numToString (from_id sender)))
                   (stringToUuid (?k @ ''-'' @ agentId C))
                   (orElse (username sender) (orElse (Some (first_name sender)) ''Unknown User''))
                   (orElse (username sender) (orElse (Some (first_name sender)) ''Unknown User''))
                   ''telegram'']\<rparr>) = (Inr imageInfo, w1)"
      and ft: "fullTextOf (messageTextOf message) imageInfo \<noteq> []"
      and cm: "createMemoryR E (events w1)
          (inboundMemory E C message sender ?k (fullTextOf (messageTextOf message) imageInfo)) = None"
      and cs: "composeStateR E
          (events w1 @ [CreateMemory (inboundMemory E C message sender ?k
                          (fullTextOf (messageTextOf message) imageInfo))])
          (inboundMemory E C message sender ?k (fullTextOf (messageTextOf message) imageInfo)) =
          Inr st0"
      and up: "updateRecentMessageStateR E
          (events w1 @
             [CreateMemory (inboundMemory E C message sender ?k
                (fullTextOf (messageTextOf message) imageInfo)),
              ComposeState (inboundMemory E C message sender ?k
                (fullTextOf (messageTextOf message) imageInfo))]) st0 = Inr st"
    for c sender imageInfo w1 st0 st
  proof -
    let ?mem = "inboundMemory E C message sender ?k (fullTextOf (messageTextOf message) imageInfo)"
    let ?w2 = "w1\<lparr>events := events w1 @ [CreateMemory ?mem, ComposeState ?mem,
                                           UpdateRecentMessageState st0]\<rparr>"
    have "(\<forall>e w3. shouldRespond E C message st ?w2 = (Inl e, w3) \<longrightarrow>
            handleMessage E C c w =
              (Inr (), w3\<lparr>events := events w3 @ [Logged LError ''Error handling message:'',
                                                  Logged LError ''Error sending message:'']\<rparr>)) \<and>
         (\<forall>w3. shouldRespond E C message st ?w2 = (Inr False, w3) \<longrightarrow>
            handleMessage E C c w =
              tryCatch (evaluate E ?mem st False)
                (\<lambda>error. bind (logger LError ''Error handling message:'')
                           (\<lambda>_. logger LError ''Error sending message:'')) w3)"
      by (rule handleMessage_to_decision [where sender = sender and chatId = ?k
            and imageInfo = imageInfo and ?w1.0 = w1 and ?st0.0 = st0
            and ?w0.0 = "snd ((if ?k \<noteq> [] \<and> messageTextOf message \<noteq> []
                  then track E ?k sender (messageTextOf message) else ret ()) w)"])
        (insert ec pi cm cs up f1 f2 ft, simp_all add: m s)
    with 2 [of st ?w2] show ?thesis by simp
  qed
  from 1 2 3 4 show ?thesis by blast
qed

theorem shouldRespond_without_text_witness:
  "shouldRespond (answeringEnv (Inr [replyMemory ''RESPOND''])) exampleClient
     (groupMessage None (Some ''@agentbot look at this'')) (JObj []) emptyWorld =
     (Inl (TypeError ''Cannot read properties of undefined (reading 'includes')''), emptyWorld) \<and>
   fst (handleMessage (answeringEnv (Inr [replyMemory ''RESPOND''])) exampleClient captionContext
          emptyWorld) = Inr () \<and>
   reactions (snd (handleMessage (answeringEnv (Inr [replyMemory ''RESPOND''])) exampleClient
          captionContext emptyWorld)) = [] \<and>
   errorLines (snd (handleMessage (answeringEnv (Inr [replyMemory ''RESPOND''])) exampleClient
          captionContext emptyWorld)) = [''Error handling message:'', ''Error sending message:''] \<and>
   length (events (snd (handleMessage (answeringEnv (Inr [replyMemory ''RESPOND''])) exampleClient
          captionContext emptyWorld))) = 6"
proof -
  let ?E = "answeringEnv (Inr [replyMemory ''RESPOND''])"
  let ?m = "groupMessage None (Some ''@agentbot look at this'')"
  let ?st = "JObj [(''agentName'', JStr ''Eliza'')]"
  let ?k = "numToString (chat_id (chat ?m))"
  let ?mem = "inboundMemory ?E exampleClient ?m exampleSender ?k
                (fullTextOf (messageTextOf ?m) None)"
  let ?w1 = "(snd ((if ?k \<noteq> [] \<and> messageTextOf ?m \<noteq> []
                    then track ?E ?k exampleSender (messageTextOf ?m) else ret ()) emptyWorld))
             \<lparr>events := events emptyWorld @
                [EnsureConnection (stringToUuid (numToString (from_id exampleSender)))
                   (stringToUuid (?k @ ''-'' @ agentId exampleClient))
                   (orElse (username exampleSender) (orElse (Some (first_name exampleSender)) ''Unknown User''))
                   (orElse (username exampleSender) (orElse (Some (first_name exampleSender)) ''Unknown User''))
                   ''telegram'']\<rparr>"
  have t: "msg_text ?m = None"
    by (simp add: groupMessage_def)
  have c: "ctx_message captionContext = Some ?m"
    by (simp add: captionContext_def)
  have r: "reactions emptyWorld = []"
    by (simp add: reactions_def emptyWorld_def)
  note th = shouldRespond_without_text [OF t, of exampleClient emptyWorld ?E]
  have 1: "shouldRespond ?E exampleClient ?m (JObj []) emptyWorld =
     (Inl (TypeError ''Cannot read properties of undefined (reading 'includes')''), emptyWorld)"
    by (rule th [THEN conjunct2, THEN conjunct1])
  have 2: "fst (handleMessage ?E exampleClient captionContext emptyWorld) = Inr ()"
    and 3: "reactions (snd (handleMessage ?E exampleClient captionContext emptyWorld)) = []"
    using th [of "JObj []", THEN conjunct2, THEN conjunct2, THEN conjunct1, rule_format, OF c] r
    by simp_all
  have run: "handleMessage ?E exampleClient captionContext emptyWorld =
      (Inr (), ?w1\<lparr>events := events ?w1 @ [CreateMemory ?mem, ComposeState ?mem,
                 UpdateRecentMessageState ?st,
                 Logged LError ''Error handling message:'',
                 Logged LError ''Error sending message:'']\<rparr>)"
    by (rule th [of "JObj []", THEN conjunct2, THEN conjunct2, THEN conjunct2, rule_format,
          where st = ?st])
      (simp add: captionContext_def exampleClient_def exampleSender_def messageTextOf_def
        processImage_plain answeringEnv_def groupMessage_def fullTextOf_def)
  have 4: "errorLines (snd (handleMessage ?E exampleClient captionContext emptyWorld)) =
      [''Error handling message:'', ''Error sending message:'']"
    and 5: "length (events (snd (handleMessage ?E exampleClient captionContext emptyWorld))) = 6"
    unfolding run by (simp_all add: errorLines_def emptyWorld_def)
  from 1 2 3 4 5 show ?thesis by simp
qed

section \<open>Proofs: group messages without a mention\<close>

lemma shouldRespond_unset:
  assumes "msg_text message = Some t" and "\<not> includesStr t (''@'' @ botUsername C)"
    and "chat_type (chat message) \<noteq> ''private''"
    and "interestChats w (numToString (chat_id (chat message))) = Some cs"
    and "currentHandler cs = None"
  shows "shouldRespond E C message state w = (Inr False, w)"
  using assms
  by (simp add: shouldRespond_def isMessageForMe_def shouldRespondBasedOnContext_def
      Let_def bind_def ret_def)

lemma evaluationOf_cases: "evaluationOf ev = [] \<or> evaluationOf ev = [True] \<or> evaluationOf ev = [False]"
  by (cases ev) auto

text \<open>
  C1. A message of a chat that is not private, with a text that is not empty and does
  not mention the agent, in a world in which the chat has no state yet or a state without
  a handler.
  \<^item> In \<open>_shouldRespond\<close>, a chat state without a handler gives \<open>false\<close> (IGNORE) by
    the continuation check, and nothing is called.
  \<^item> \<open>handleMessage\<close> updates the tracker before it asks \<open>_shouldRespond\<close>, so the
    chat has a state at that point. The run returns, nothing is searched (the
    generation is not asked) and no evaluation is told that the agent responds.
  \<^item> When the collaborators answer on the way to the decision, the run is: the
    connection, the image, the memory, the state and its update, and then the evaluation
    with \<open>false\<close>.
\<close>

theorem handleMessage_never_delegates:
  assumes m: "ctx_message c = Some message" and t: "msg_text message = Some t" and ne: "t \<noteq> []"
    and nm: "\<not> includesStr t (''@'' @ botUsername C)"
    and np: "chat_type (chat message) \<noteq> ''private''"
    and st: "\<forall>cs. interestChats w (numToString (chat_id (chat message))) = Some cs \<longrightarrow>
               currentHandler cs = None"
  shows
    "(\<forall>state cs w'.
        interestChats w' (numToString (chat_id (chat message))) = Some cs \<and> currentHandler cs = None \<longrightarrow>
        shouldRespond E C message state w' = (Inr False, w')) \<and>
     fst (handleMessage E C c w) = Inr () \<and>
     searches (snd (handleMessage E C c w)) = searches w \<and>
     set (evaluations (snd (handleMessage E C c w))) \<subseteq> insert False (set (evaluations w)) \<and>
     (\<forall>sender imageInfo w1 st0 state.
        ctx_from c = Some sender \<and>
        \<not> (shouldIgnoreBotMessages (character C) \<and> is_bot sender) \<and>
        \<not> (shouldIgnoreDirectMessages (character C) \<and> chat_type (chat message) = ''private'') \<and>
        ensureConnectionR E (events w) = None \<and>
        processImage E message
          ((snd (track E (numToString (chat_id (chat message))) sender t w))
             \<lparr>events := events w @
                [EnsureConnection (stringToUuid (numToString (from_id sender)))
                   (stringToUuid (numToString (chat_id (chat message)) @ ''-'' @ agentId C))
                   (orElse (username sender) (orElse (Some (first_name sender)) ''Unknown User''))
                   (orElse (username sender) (orElse (Some (first_name sender)) ''Unknown User''))
                   ''telegram'']\<rparr>) = (Inr imageInfo, w1) \<and>
        createMemoryR E (events w1)
          (inboundMemory E C message sender (numToString (chat_id (chat message)))
             (fullTextOf t imageInfo)) = None \<and>
        composeStateR E
          (events w1 @
             [CreateMemory (inboundMemory E C message sender (numToString (chat_id (chat message)))
                (fullTextOf t imageInfo))])
          (inboundMemory E C message sender (numToString (chat_id (chat message)))
             (fullTextOf t imageInfo)) = Inr st0 \<and>
        updateRecentMessageStateR E
          (events w1 @
             [CreateMemory (inboundMemory E C message sender (numToString (chat_id (chat message)))
                (fullTextOf t imageInfo)),
              ComposeState (inboundMemory E C message sender (numToString (chat_id (chat message)))
                (fullTextOf t imageInfo))]) st0 = Inr state \<longrightarrow>
        handleMessage E C c w =
          tryCatch
            (evaluate E
               (inboundMemory E C message sender (numToString (chat_id (chat message)))
                  (fullTextOf t imageInfo)) state False)
            (\<lambda>error. bind (logger LError ''Error handling message:'')
                       (\<lambda>_. logger LError ''Error sending message:''))
            (w1\<lparr>events := events w1 @
                 [CreateMemory (inboundMemory E C message sender (numToString (chat_id (chat message)))
                    (fullTextOf t imageInfo)),
                  ComposeState (inboundMemory E C message sender (numToString (chat_id (chat message)))
                    (fullTextOf t imageInfo)),
                  UpdateRecentMessageState st0]\<rparr>))"
proof -
  let ?k = "numToString (chat_id (chat message))"
  let ?h = "\<lambda>error. bind (logger LError ''Error handling message:'')
                       (\<lambda>_. logger LError ''Error sending message:'')"
  define I where "I = (\<lambda>x. (\<exists>cs. interestChats x ?k = Some cs \<and> currentHandler cs = None) \<and>
     searches x = searches w \<and> set (evaluations x) \<subseteq> insert False (set (evaluations w)))"
  have mt: "messageTextOf message = t" using t by (simp add: messageTextOf_def)
  have 1: "shouldRespond E C message state w' = (Inr False, w')"
    if "interestChats w' ?k = Some cs" "currentHandler cs = None" for state cs w'
    using t nm np that by (rule shouldRespond_unset)
  have harmless: "I (x\<lparr>events := events x @ [ev]\<rparr>)"
    if "\<not> isSearch ev" "evaluationOf ev \<noteq> [True]" "I x" for ev x
    using that evaluationOf_cases [of ev]
    by (auto simp: I_def searches_def evaluations_def)
  have decide: "maintains I (shouldRespond E C message state) (\<lambda>respond. \<not> respond)" for state
    unfolding maintains_def
  proof (intro allI impI)
    fix x
    assume i: "I x"
    then obtain cs where "interestChats x ?k = Some cs" "currentHandler cs = None"
      unfolding I_def by blast
    then have "shouldRespond E C message state x = (Inr False, x)" by (rule 1)
    with i show "I (snd (shouldRespond E C message state x)) \<and>
      (\<forall>r. fst (shouldRespond E C message state x) = Inr r \<longrightarrow> \<not> r)" by simp
  qed
  have body: "maintains I (tryCatch (handleMessage_try E C c message sender ?k t) ?h) (\<lambda>_. True)"
    for sender
    by (intro maintains_tryCatch maintains_handleMessage_try harmless decide
        maintains_bind [where Q = "\<lambda>_. True"] maintains_calls(8) [of I, OF harmless])
      simp_all
  have tracked: "I (snd (track E ?k sender t w))" for sender
  proof -
    have e: "searches (snd (track E ?k sender t w)) = searches w"
      "evaluations (snd (track E ?k sender t w)) = evaluations w"
      by (simp_all add: searches_def evaluations_def track_run(2))
    have "\<exists>cs. interestChats (snd (track E ?k sender t w)) ?k = Some cs \<and> currentHandler cs = None"
    proof (cases "interestChats w ?k")
      case None
      then show ?thesis by (simp add: track_def Let_def)
    next
      case (Some cs)
      with st have "currentHandler cs = None" by simp
      with Some show ?thesis by (simp add: track_def Let_def)
    qed
    with e show ?thesis by (auto simp: I_def)
  qed
  have run: "handleMessage E C c w = (Inr (), w) \<or>
      (\<exists>sender. handleMessage E C c w =
         tryCatch (handleMessage_try E C c message sender ?k t) ?h (snd (track E ?k sender t w)))"
  proof (cases "ctx_from c")
    case None
    with m show ?thesis by (simp add: handleMessage_def ret_def)
  next
    case (Some sender)
    show ?thesis
    proof (cases "(shouldIgnoreBotMessages (character C) \<and> is_bot sender) \<or>
                  (shouldIgnoreDirectMessages (character C) \<and> chat_type (chat message) = ''private'')")
      case True
      with m Some show ?thesis by (auto simp: handleMessage_def ret_def)
    next
      case False
      then have g: "(shouldIgnoreBotMessages (character C) \<and> is_bot sender) = False"
        "(shouldIgnoreDirectMessages (character C) \<and> chat_type (chat message) = ''private'') = False"
        by simp_all
      have "handleMessage E C c =
          bind (track E ?k sender t) (\<lambda>_. tryCatch (handleMessage_try E C c message sender ?k t) ?h)"
        unfolding handleMessage_def Let_def
        by (simp only: m Some option.case g if_False mt ne numToString_nonempty simp_thms if_True)
      then have "handleMessage E C c w =
          tryCatch (handleMessage_try E C c message sender ?k t) ?h (snd (track E ?k sender t w))"
        by (simp only: bind_run [where m = "track E ?k sender t" and w = w, OF track_run(1)])
      then show ?thesis by blast
    qed
  qed
  have fin: "I (snd (handleMessage E C c w)) \<or> snd (handleMessage E C c w) = w"
    using run
  proof
    assume "handleMessage E C c w = (Inr (), w)"
    then show ?thesis by simp
  next
    assume "\<exists>sender. handleMessage E C c w =
         tryCatch (handleMessage_try E C c message sender ?k t) ?h (snd (track E ?k sender t w))"
    then obtain sender where r: "handleMessage E C c w =
         tryCatch (handleMessage_try E C c message sender ?k t) ?h (snd (track E ?k sender t w))"
      by blast
    from body [of sender] tracked [of sender]
    have "I (snd (tryCatch (handleMessage_try E C c message sender ?k t) ?h
                    (snd (track E ?k sender t w))))"
      unfolding maintains_def by blast
    with r show ?thesis by simp
  qed
  have 2: "fst (handleMessage E C c w) = Inr ()"
    using safe_handleMessage [of E C c] by (simp add: safe_def)
  have 3: "searches (snd (handleMessage E C c w)) = searches w"
    using fin by (auto simp: I_def)
  have 4: "set (evaluations (snd (handleMessage E C c w))) \<subseteq> insert False (set (evaluations w))"
    using fin by (auto simp: I_def)
  have 5: "handleMessage E C c w =
      tryCatch (evaluate E (inboundMemory E C message sender ?k (fullTextOf t imageInfo)) state False)
        ?h
        (w1\<lparr>events := events w1 @
           [CreateMemory (inboundMemory E C message sender ?k (fullTextOf t imageInfo)),
            ComposeState (inboundMemory E C message sender ?k (fullTextOf t imageInfo)),
            UpdateRecentMessageState st0]\<rparr>)"
    if s: "ctx_from c = Some sender"
      and f1: "\<not> (shouldIgnoreBotMessages (character C) \<and> is_bot sender)"
      and f2: "\<not> (shouldIgnoreDirectMessages (character C) \<and> chat_type (chat message) = ''private'')"
      and ec: "ensureConnectionR E (events w) = None"
      and pi: "processImage E message
          ((snd (track E ?k sender t w))
             \<lparr>events := events w @
                [EnsureConnection (stringToUuid (numToString (from_id sender)))
                   (stringToUuid (?k @ ''-'' @ agentId C))
                   (orElse (username sender) (orElse (Some (first_name sender)) ''Unknown User''))
                   (orElse (username sender) (orElse (Some (first_name sender)) ''Unknown User''))
                   ''telegram'']\<rparr>) = (Inr imageInfo, w1)"
      and cm: "createMemoryR E (events w1)
          (inboundMemory E C message sender ?k (fullTextOf t imageInfo)) = None"
      and cs: "composeStateR E
          (events w1 @ [CreateMemory (inboundMemory E C message sender ?k (fullTextOf t imageInfo))])
          (inboundMemory E C message sender ?k (fullTextOf t imageInfo)) = Inr st0"
      and up: "updateRecentMessageStateR E
          (events w1 @
             [CreateMemory (inboundMemory E C message sender ?k (fullTextOf t imageInfo)),
              ComposeState (inboundMemory E C message sender ?k (fullTextOf t imageInfo))]) st0 =
          Inr state"
    for sender imageInfo w1 st0 state
  proof -
    let ?mem = "inboundMemory E C message sender ?k (fullTextOf t imageInfo)"
    let ?w2 = "w1\<lparr>events := events w1 @ [CreateMemory ?mem, ComposeState ?mem,
                                           UpdateRecentMessageState st0]\<rparr>"
    have w0: "snd (track E ?k sender t w) =
        snd ((if ?k \<noteq> [] \<and> messageTextOf message \<noteq> []
              then track E ?k sender (messageTextOf message) else ret ()) w)"
      by (simp add: mt ne numToString_nonempty)
    have ft: "fullTextOf (messageTextOf message) imageInfo \<noteq> []"
      using ne by (cases imageInfo) (simp_all add: fullTextOf_def mt)
    have "I (snd (processImage E message
          ((snd (track E ?k sender t w))
             \<lparr>events := events w @
                [EnsureConnection (stringToUuid (numToString (from_id sender)))
                   (stringToUuid (?k @ ''-'' @ agentId C))
                   (orElse (username sender) (orElse (Some (first_name sender)) ''Unknown User''))
                   (orElse (username sender) (orElse (Some (first_name sender)) ''Unknown User''))
                   ''telegram'']\<rparr>)))"
    proof -
      have "I ((snd (track E ?k sender t w))
             \<lparr>events := events (snd (track E ?k sender t w)) @
                [EnsureConnection (stringToUuid (numToString (from_id sender)))
                   (stringToUuid (?k @ ''-'' @ agentId C))
                   (orElse (username sender) (orElse (Some (first_name sender)) ''Unknown User''))
                   (orElse (username sender) (orElse (Some (first_name sender)) ''Unknown User''))
                   ''telegram'']\<rparr>)"
        by (rule harmless) (simp_all add: tracked)
      then show ?thesis
        using maintains_processImage [of I E message, OF harmless]
        unfolding maintains_def by (simp add: track_run(2))
    qed
    with pi have "I w1" by simp
    then have "I ?w2"
      by (auto simp: I_def searches_def evaluations_def)
    then obtain cs where "interestChats ?w2 ?k = Some cs" "currentHandler cs = None"
      unfolding I_def by blast
    then have d: "shouldRespond E C message state ?w2 = (Inr False, ?w2)" by (rule 1)
    have "(\<forall>e w3. shouldRespond E C message state ?w2 = (Inl e, w3) \<longrightarrow>
            handleMessage E C c w =
              (Inr (), w3\<lparr>events := events w3 @ [Logged LError ''Error handling message:'',
                                                  Logged LError ''Error sending message:'']\<rparr>)) \<and>
         (\<forall>w3. shouldRespond E C message state ?w2 = (Inr False, w3) \<longrightarrow>
            handleMessage E C c w = tryCatch (evaluate E ?mem state False) ?h w3)"
      by (rule handleMessage_to_decision [where sender = sender and chatId = ?k
            and imageInfo = imageInfo and ?w1.0 = w1 and ?st0.0 = st0
            and ?w0.0 = "snd (track E ?k sender t w)"])
        (insert ec pi cm cs up f1 f2, simp_all add: m s mt ne numToString_nonempty ft [unfolded mt])
    with d show ?thesis by blast
  qed
  from 1 2 3 4 5 show ?thesis by blast
qed

theorem handleMessage_never_delegates_witness:
  "shouldRespond (answeringEnv (Inr [replyMemory ''RESPOND''])) exampleClient
     (groupMessage (Some ''hello everyone'') None) (JObj []) trackedWorld = (Inr False, trackedWorld) \<and>
   fst (handleMessage (answeringEnv (Inr [replyMemory ''RESPOND''])) exampleClient helloContext
          emptyWorld) = Inr () \<and>
   searches (snd (handleMessage (answeringEnv (Inr [replyMemory ''RESPOND''])) exampleClient
          helloContext emptyWorld)) = [] \<and>
   evaluations (snd (handleMessage (answeringEnv (Inr [replyMemory ''RESPOND''])) exampleClient
          helloContext emptyWorld)) = [False] \<and>
   errorLines (snd (handleMessage (answeringEnv (Inr [replyMemory ''RESPOND''])) exampleClient
          helloContext emptyWorld)) = []"
proof -
  let ?E = "answeringEnv (Inr [replyMemory ''RESPOND''])"
  let ?m = "groupMessage (Some ''hello everyone'') None"
  let ?st = "JObj [(''agentName'', JStr ''Eliza'')]"
  let ?k = "numToString (chat_id (chat ?m))"
  let ?mem = "inboundMemory ?E exampleClient ?m exampleSender ?k (fullTextOf ''hello everyone'' None)"
  let ?w1 = "(snd (track ?E ?k exampleSender ''hello everyone'' emptyWorld))
             \<lparr>events := events emptyWorld @
                [EnsureConnection (stringToUuid (numToString (from_id exampleSender)))
                   (stringToUuid (?k @ ''-'' @ agentId exampleClient))
                   (orElse (username exampleSender) (orElse (Some (first_name exampleSender)) ''Unknown User''))
                   (orElse (username exampleSender) (orElse (Some (first_name exampleSender)) ''Unknown User''))
                   ''telegram'']\<rparr>"
  have h: "ctx_message helloContext = Some ?m" "msg_text ?m = Some ''hello everyone''"
    "''hello everyone'' \<noteq> []" "\<not> includesStr ''hello everyone'' (''@'' @ botUsername exampleClient)"
    "chat_type (chat ?m) \<noteq> ''private''"
    "\<forall>cs. interestChats emptyWorld ?k = Some cs \<longrightarrow> currentHandler cs = None"
    by (simp_all add: helloContext_def groupMessage_def exampleClient_def emptyWorld_def)
  note th = handleMessage_never_delegates [OF h, of ?E]
  have 1: "shouldRespond ?E exampleClient ?m (JObj []) trackedWorld = (Inr False, trackedWorld)"
    by (rule th [THEN conjunct1, rule_format,
          where cs = "\<lparr>currentHandler = None, lastMessageSent = 0, messages = []\<rparr>"])
      (simp add: trackedWorld_def groupMessage_def numToString_chat)
  have 2: "fst (handleMessage ?E exampleClient helloContext emptyWorld) = Inr ()"
    by (rule th [THEN conjunct2, THEN conjunct1])
  have 3: "searches (snd (handleMessage ?E exampleClient helloContext emptyWorld)) = []"
    using th [THEN conjunct2, THEN conjunct2, THEN conjunct1]
    by (simp add: searches_def emptyWorld_def)
  have run: "handleMessage ?E exampleClient helloContext emptyWorld =
      tryCatch (evaluate ?E ?mem ?st False)
        (\<lambda>error. bind (logger LError ''Error handling message:'')
                   (\<lambda>_. logger LError ''Error sending message:''))
        (?w1\<lparr>events := events ?w1 @ [CreateMemory ?mem, ComposeState ?mem,
                                       UpdateRecentMessageState ?st]\<rparr>)"
    by (rule th [THEN conjunct2, THEN conjunct2, THEN conjunct2, THEN conjunct2, rule_format])
      (simp add: helloContext_def exampleClient_def exampleSender_def groupMessage_def
        processImage_plain answeringEnv_def)
  have 4: "evaluations (snd (handleMessage ?E exampleClient helloContext emptyWorld)) = [False]"
    and 5: "errorLines (snd (handleMessage ?E exampleClient helloContext emptyWorld)) = []"
    unfolding run
    by (simp_all add: tryCatch_def evaluate_def callExt_def orThrow_def answeringEnv_def
        evaluations_def errorLines_def emptyWorld_def track_run(2))
  from 1 2 3 4 5 show ?thesis by simp
qed

section \<open>Proofs: sending in chunks\<close>

lemma sendMessage_run:
  "sendMessage E chatId chunk replyTo w = (r, w') \<Longrightarrow>
   events w' = events w @ [SendMessage chatId chunk replyTo]"
  by (auto simp: sendMessage_def callExt_def split: sum.splits)

lemma sendLoop_tail:
  "0 < i \<Longrightarrow> sendLoop E chatId replyTo i chunks sent w = (r, w') \<Longrightarrow>
   \<exists>k\<le>length chunks.
     events w' = events w @ take k (map (\<lambda>chunk. SendMessage chatId chunk None) chunks) \<and>
     (\<forall>out. r = Inr out \<longrightarrow> k = length chunks \<and> length out = length sent + length chunks)"
proof (induction chunks arbitrary: i sent w)
  case Nil
  then show ?case by (auto simp: ret_def)
next
  case (Cons chunk rest)
  obtain r1 w1 where s: "sendMessage E chatId chunk None w = (r1, w1)"
    by (cases "sendMessage E chatId chunk None w")
  then have e1: "events w1 = events w @ [SendMessage chatId chunk None]"
    by (rule sendMessage_run)
  show ?case
  proof (cases r1)
    case (Inl e)
    with Cons.prems s have "r = Inl e" "w' = w1" by (simp_all add: bind_def)
    with e1 show ?thesis by (intro exI [of _ 1]) simp
  next
    case (Inr sm)
    with Cons.prems s have "sendLoop E chatId replyTo (i + 1) rest (sent @ [sm]) w1 = (r, w')"
      by (simp add: bind_def)
    from Cons.IH [OF _ this] obtain k where k: "k \<le> length rest"
      "events w' = events w1 @ take k (map (\<lambda>chunk. SendMessage chatId chunk None) rest)"
      "\<forall>out. r = Inr out \<longrightarrow> k = length rest \<and> length out = length (sent @ [sm]) + length rest"
      by auto
    with e1 show ?thesis by (intro exI [of _ "Suc k"]) simp
  qed
qed

lemma sendLoop_head:
  "sendLoop E chatId replyTo 0 chunks [] w = (r, w') \<Longrightarrow>
   \<exists>k\<le>length chunks.
     events w' = events w @ take k (expectedSends chatId replyTo chunks) \<and>
     (\<forall>out. r = Inr out \<longrightarrow> k = length chunks \<and> length out = length chunks)"
proof (cases chunks)
  case Nil
  assume "sendLoop E chatId replyTo 0 chunks [] w = (r, w')"
  with Nil show ?thesis by (auto simp: ret_def expectedSends_def)
next
  case (Cons chunk rest)
  assume run: "sendLoop E chatId replyTo 0 chunks [] w = (r, w')"
  let ?p = "if replyTo \<noteq> None \<and> replyTo \<noteq> Some 0 then replyTo else None"
  obtain r1 w1 where s: "sendMessage E chatId chunk ?p w = (r1, w1)"
    by (cases "sendMessage E chatId chunk ?p w")
  then have e1: "events w1 = events w @ [SendMessage chatId chunk ?p]"
    by (rule sendMessage_run)
  show ?thesis
  proof (cases r1)
    case (Inl e)
    with run Cons s have "r = Inl e" "w' = w1" by (simp_all add: bind_def)
    with e1 Cons show ?thesis by (intro exI [of _ 1]) (simp add: expectedSends_def)
  next
    case (Inr sm)
    with run Cons s have "sendLoop E chatId replyTo 1 rest [sm] w1 = (r, w')"
      by (simp add: bind_def)
    from sendLoop_tail [OF _ this] obtain k where k: "k \<le> length rest"
      "events w' = events w1 @ take k (map (\<lambda>chunk. SendMessage chatId chunk None) rest)"
      "\<forall>out. r = Inr out \<longrightarrow> k = length rest \<and> length out = length [sm] + length rest"
      by auto
    with e1 Cons show ?thesis by (intro exI [of _ "Suc k"]) (simp add: expectedSends_def)
  qed
qed

lemma createMemory_run:
  "createMemory E memory w = (r, w') \<Longrightarrow> events w' = events w @ [CreateMemory memory]"
  by (auto simp: createMemory_def callExt_def split: sum.splits)

lemma recordLoop_run:
  "recordLoop E C roomId messageId content n i sentMessages memories w = (Inr out, w') \<Longrightarrow>
   \<exists>new. out = memories @ new \<and> length new = length sentMessages \<and>
     events w' = events w @ map CreateMemory new \<and>
     (\<forall>j<length sentMessages.
        new ! j = sentMemory E C roomId messageId content (int (i + j) = int n - 1) (sentMessages ! j))"
proof (induction sentMessages arbitrary: i memories w)
  case Nil
  then show ?case by (simp add: ret_def)
next
  case (Cons sm rest)
  let ?mem = "sentMemory E C roomId messageId content (int i = int n - 1) sm"
  obtain r1 w1 where c: "createMemory E ?mem w = (r1, w1)"
    by (cases "createMemory E ?mem w")
  then have e1: "events w1 = events w @ [CreateMemory ?mem]" by (rule createMemory_run)
  from Cons.prems c obtain u where "r1 = Inr u"
    by (cases r1) (auto simp: Let_def bind_def)
  with Cons.prems c have
    "recordLoop E C roomId messageId content n (i + 1) rest (memories @ [?mem]) w1 = (Inr out, w')"
    by (simp add: Let_def bind_def)
  from Cons.IH [OF this] obtain new where new: "out = (memories @ [?mem]) @ new"
    "length new = length rest" "events w' = events w1 @ map CreateMemory new"
    "\<forall>j<length rest. new ! j =
       sentMemory E C roomId messageId content (int (i + 1 + j) = int n - 1) (rest ! j)"
    by blast
  have "\<forall>j<length (sm # rest). (?mem # new) ! j =
       sentMemory E C roomId messageId content (int (i + j) = int n - 1) ((sm # rest) ! j)"
  proof (intro allI impI)
    fix j
    assume "j < length (sm # rest)"
    then show "(?mem # new) ! j =
       sentMemory E C roomId messageId content (int (i + j) = int n - 1) ((sm # rest) ! j)"
      using new(4) by (cases j) auto
  qed
  with new e1 show ?case by (intro exI [of _ "?mem # new"]) simp
qed


lemma length_expectedSends: "length (expectedSends chatId replyTo chunks) = length chunks"
  by (simp add: expectedSends_def split: list.splits)

lemma sendMessageInChunks_run:
  assumes "ctx_message c = Some m"
    and "sendMessageInChunks E c content rt w = (r, w1)"
  shows "\<exists>k\<le>length (splitMessage (case content_text content of Some t \<Rightarrow> t | None \<Rightarrow> []) 4096).
           events w1 = events w @
             take k (expectedSends (chat_id (chat m)) rt
                       (splitMessage (case content_text content of Some t \<Rightarrow> t | None \<Rightarrow> []) 4096)) \<and>
           (\<forall>sent. r = Inr sent \<longrightarrow>
              k = length (splitMessage (case content_text content of Some t \<Rightarrow> t | None \<Rightarrow> []) 4096) \<and>
              length sent = k)"
proof -
  let ?chunks = "splitMessage (case content_text content of Some t \<Rightarrow> t | None \<Rightarrow> []) 4096"
  from assms have "sendLoop E (chat_id (chat m)) rt 0 ?chunks [] w = (r, w1)"
    by (simp add: sendMessageInChunks_def)
  from sendLoop_head [OF this] obtain k where k: "k \<le> length ?chunks"
    "events w1 = events w @ take k (expectedSends (chat_id (chat m)) rt ?chunks)"
    "\<forall>out. r = Inr out \<longrightarrow> k = length ?chunks \<and> length out = length ?chunks"
    by blast
  from k(3) have "\<forall>sent. r = Inr sent \<longrightarrow> k = length ?chunks \<and> length sent = k" by simp
  with k(1,2) show ?thesis by blast
qed

lemma sentMemory_action:
  "\<exists>c'. memory_content (sentMemory E C roomId messageId content isLast sm) = Some c' \<and>
        content_action c' = (if \<not> isLast then Some ''CONTINUE'' else content_action content)"
  by (simp add: sentMemory_def)

lemma callback_run:
  assumes "ctx_message c = Some m"
    and run: "callback E C c message roomId messageId content w = (Inr memories, w')"
  shows "length memories =
          length (splitMessage (case content_text content of Some t \<Rightarrow> t | None \<Rightarrow> []) 4096)"
    and "events w' = events w @
          expectedSends (chat_id (chat m)) (Some (message_id message))
            (splitMessage (case content_text content of Some t \<Rightarrow> t | None \<Rightarrow> []) 4096) @
          map CreateMemory memories"
    and "\<forall>i<length memories.
           \<exists>c'. memory_content (memories ! i) = Some c' \<and>
             content_action c' =
               (if Suc i < length memories then Some ''CONTINUE'' else content_action content)"
proof -
  let ?chunks = "splitMessage (case content_text content of Some t \<Rightarrow> t | None \<Rightarrow> []) 4096"
  obtain r1 w1 where s: "sendMessageInChunks E c content (Some (message_id message)) w = (r1, w1)"
    by (cases "sendMessageInChunks E c content (Some (message_id message)) w")
  from run s obtain sent where sent: "r1 = Inr sent"
    by (cases r1) (auto simp: callback_def bind_def)
  from sendMessageInChunks_run [OF assms(1) s] obtain k where k: "k \<le> length ?chunks"
    "events w1 = events w @
       take k (expectedSends (chat_id (chat m)) (Some (message_id message)) ?chunks)"
    "\<forall>sent. r1 = Inr sent \<longrightarrow> k = length ?chunks \<and> length sent = k"
    by blast
  from k(3) sent have kl: "k = length ?chunks" and len: "length sent = length ?chunks"
    by simp_all
  from k(2) kl have
    e1: "events w1 = events w @ expectedSends (chat_id (chat m)) (Some (message_id message)) ?chunks"
    by (simp add: length_expectedSends)
  from run s sent have
    "recordLoop E C roomId messageId content (length sent) 0 sent [] w1 = (Inr memories, w')"
    by (simp add: callback_def bind_def)
  from recordLoop_run [OF this] obtain new where new: "memories = [] @ new"
    "length new = length sent" "events w' = events w1 @ map CreateMemory new"
    "\<forall>j<length sent. new ! j =
       sentMemory E C roomId messageId content (int (0 + j) = int (length sent) - 1) (sent ! j)"
    by blast
  then have l2: "length memories = length sent"
    and e2: "events w' = events w1 @ map CreateMemory memories"
    and mem: "\<forall>j<length sent. memories ! j =
       sentMemory E C roomId messageId content (int j = int (length sent) - 1) (sent ! j)"
    by simp_all
  from len l2 show "length memories = length ?chunks" by simp
  from e1 e2 show "events w' = events w @
          expectedSends (chat_id (chat m)) (Some (message_id message)) ?chunks @
          map CreateMemory memories" by simp
  show "\<forall>i<length memories.
           \<exists>c'. memory_content (memories ! i) = Some c' \<and>
             content_action c' =
               (if Suc i < length memories then Some ''CONTINUE'' else content_action content)"
  proof (intro allI impI)
    fix i
    assume i: "i < length memories"
    with l2 mem have "memories ! i =
         sentMemory E C roomId messageId content (int i = int (length sent) - 1) (sent ! i)"
      by simp
    moreover have "(\<not> (int i = int (length sent) - 1)) = (Suc i < length memories)"
      using i l2 by auto
    ultimately show "\<exists>c'. memory_content (memories ! i) = Some c' \<and>
             content_action c' =
               (if Suc i < length memories then Some ''CONTINUE'' else content_action content)"
      using sentMemory_action [of E C roomId messageId content "int i = int (length sent) - 1" "sent ! i"]
      by simp
  qed
qed

text \<open>
  C9. The chunks are those of \<open>splitMessage\<close> at 4096.
  \<^item> Whatever the transport answers, the sends made by \<open>sendMessageInChunks\<close> are the
    first \<open>k\<close> of the expected ones, in the order of the chunks: the first chunk with
    the reply parameter (when the message id is truthy), every other chunk without; when
    the call returns, all chunks were sent.
  \<^item> When the callback returns, its events are these sends and then one
    \<open>createMemory\<close> for each sent message, in order; the memory of every chunk but the
    last has the action \<open>CONTINUE\<close>, the last one the action of the response.
\<close>

theorem callback_chunks:
  assumes "ctx_message c = Some m"
  shows
    "(\<forall>r w1. sendMessageInChunks E c content replyTo w = (r, w1) \<longrightarrow>
        (\<exists>k\<le>length (splitMessage (case content_text content of Some t \<Rightarrow> t | None \<Rightarrow> []) 4096).
           events w1 = events w @
             take k (expectedSends (chat_id (chat m)) replyTo
                       (splitMessage (case content_text content of Some t \<Rightarrow> t | None \<Rightarrow> []) 4096)) \<and>
           (\<forall>sent. r = Inr sent \<longrightarrow>
              k = length (splitMessage (case content_text content of Some t \<Rightarrow> t | None \<Rightarrow> []) 4096) \<and>
              length sent = k))) \<and>
     (\<forall>memories w'.
        callback E C c message roomId messageId content w = (Inr memories, w') \<longrightarrow>
        length memories =
          length (splitMessage (case content_text content of Some t \<Rightarrow> t | None \<Rightarrow> []) 4096) \<and>
        events w' = events w @
          expectedSends (chat_id (chat m)) (Some (message_id message))
            (splitMessage (case content_text content of Some t \<Rightarrow> t | None \<Rightarrow> []) 4096) @
          map CreateMemory memories \<and>
        (\<forall>i<length memories.
           \<exists>c'. memory_content (memories ! i) = Some c' \<and>
             content_action c' =
               (if Suc i < length memories then Some ''CONTINUE'' else content_action content)))"
proof (intro conjI allI impI)
  fix r w1
  assume "sendMessageInChunks E c content replyTo w = (r, w1)"
  with assms show "\<exists>k\<le>length (splitMessage (case content_text content of Some t \<Rightarrow> t | None \<Rightarrow> []) 4096).
           events w1 = events w @
             take k (expectedSends (chat_id (chat m)) replyTo
                       (splitMessage (case content_text content of Some t \<Rightarrow> t | None \<Rightarrow> []) 4096)) \<and>
           (\<forall>sent. r = Inr sent \<longrightarrow>
              k = length (splitMessage (case content_text content of Some t \<Rightarrow> t | None \<Rightarrow> []) 4096) \<and>
              length sent = k)"
    by (rule sendMessageInChunks_run)
next
  fix memories w'
  assume "callback E C c message roomId messageId content w = (Inr memories, w')"
  with assms show "length memories =
          length (splitMessage (case content_text content of Some t \<Rightarrow> t | None \<Rightarrow> []) 4096)"
    by (rule callback_run(1))
next
  fix memories w'
  assume "callback E C c message roomId messageId content w = (Inr memories, w')"
  with assms show "events w' = events w @
          expectedSends (chat_id (chat m)) (Some (message_id message))
            (splitMessage (case content_text content of Some t \<Rightarrow> t | None \<Rightarrow> []) 4096) @
          map CreateMemory memories"
    by (rule callback_run(2))
next
  fix memories w' i
  assume "callback E C c message roomId messageId content w = (Inr memories, w')"
    and "i < length memories"
  with callback_run(3) [OF assms, of E C message roomId messageId content w memories w']
  show "\<exists>c'. memory_content (memories ! i) = Some c' \<and>
             content_action c' =
               (if Suc i < length memories then Some ''CONTINUE'' else content_action content)"
    by blast
qed


lemma splitOn_replicate: "x \<noteq> sep \<Longrightarrow> splitOn sep (replicate n x) = [replicate n x]"
  by (induction n) simp_all

lemma splitMessage_twoChunkText:
  "splitMessage twoChunkText 4096 = [''a'', replicate 4096 (CHR ''b'')]"
  by (simp add: splitMessage_def twoChunkText_def splitOn_replicate pushLast_def)

theorem callback_chunks_witness:
  "splitMessage twoChunkText 4096 = [''a'', replicate 4096 (CHR ''b'')] \<and>
   reactions (snd (callback (answeringEnv (Inr [])) exampleClient textContext
                     (groupMessage (Some ''@agentbot tell me'') None) ''room'' ''id''
                     exampleContent emptyWorld)) =
     [SendMessage (- 1001) ''a'' (Some 7),
      SendMessage (- 1001) (replicate 4096 (CHR ''b'')) None] \<and>
   map (\<lambda>memory. map_option content_action (memory_content memory))
     (case fst (callback (answeringEnv (Inr [])) exampleClient textContext
                  (groupMessage (Some ''@agentbot tell me'') None) ''room'' ''id''
                  exampleContent emptyWorld) of
        Inr memories \<Rightarrow> memories | Inl e \<Rightarrow> []) =
     [Some (Some ''CONTINUE''), Some (Some ''NONE'')]"
proof -
  let ?E = "answeringEnv (Inr [])"
  let ?msg = "groupMessage (Some ''@agentbot tell me'') None"
  let ?sm0 = "\<lparr>message_id = 0, date = 1700000000,
              chat = \<lparr>chat_id = - 1001, chat_type = ''group''\<rparr>,
              msg_text = Some ''a'', caption = None, photo = None, document = None,
              reply_to_message = Some 7\<rparr>"
  let ?sm1 = "\<lparr>message_id = 1, date = 1700000000,
              chat = \<lparr>chat_id = - 1001, chat_type = ''group''\<rparr>,
              msg_text = Some (replicate 4096 (CHR ''b'')), caption = None, photo = None,
              document = None, reply_to_message = None\<rparr>"
  let ?m0 = "sentMemory ?E exampleClient ''room'' ''id'' exampleContent False ?sm0"
  let ?m1 = "sentMemory ?E exampleClient ''room'' ''id'' exampleContent True ?sm1"
  let ?w = "emptyWorld\<lparr>events :=
      [SendMessage (- 1001) ''a'' (Some 7),
       SendMessage (- 1001) (replicate 4096 (CHR ''b'')) None,
       CreateMemory ?m0, CreateMemory ?m1]\<rparr>"
  have c: "ctx_message textContext = Some ?msg" by (simp add: textContext_def)
  have run: "callback ?E exampleClient textContext ?msg ''room'' ''id'' exampleContent emptyWorld =
             (Inr [?m0, ?m1], ?w)"
    by (simp add: callback_def sendMessageInChunks_def textContext_def exampleContent_def
        splitMessage_twoChunkText sendMessage_def createMemory_def callExt_def orThrow_def
        bind_def ret_def answeringEnv_def emptyWorld_def groupMessage_def Let_def)
  from callback_chunks [OF c, THEN conjunct2, rule_format, OF run] run
  show ?thesis
    by (simp add: splitMessage_twoChunkText reactions_def emptyWorld_def sentMemory_def
        exampleContent_def)
qed

end
